theory Spec2Isabelle
  imports Complex_Main "HOL-Library.Multiset" "HOL-Library.Log_Nat"
begin

section \<open>Fairness metrics and the covariance loss of \<^verbatim>\<open>fairness.py\<close>\<close>

text \<open>
  The module holds two streaming metrics, \<^verbatim>\<open>SPD\<close> and \<^verbatim>\<open>EOD\<close>, each with four integer
  counters, and the stateless \<^verbatim>\<open>FairnessLoss\<close>.

  Conventions of the embedding:
  \<^item> a one-dimensional tensor is a list; predictions and targets are integer tensors
    (\<open>int list\<close>), the advantage mask is a \<open>bool list\<close>, features and weights are
    lists of reals;
  \<^item> the counters are \<^verbatim>\<open>torch.tensor(0)\<close> (64-bit integers); they are modelled as
    unbounded \<open>int\<close>, since a counter only grows by the size of a batch;
  \<^item> floating-point values are reals. The metrics and \<open>forward\<close> compute with them
    exactly; \<open>forward_rounded\<close> is the same computation with a rounding function
    applied to the result of every arithmetic operation, and \<open>binary64\<close> is the
    rounding of \<^verbatim>\<open>torch.float64\<close>. Infinities are not modelled. The one not-a-number
    the code can produce from finite inputs, the mean of an empty tensor, is the
    value \<open>NaN\<close>;
  \<^item> an exception is a value of \<open>error\<close>. An operation on an accumulator returns the
    pair of the exception raised (if any) and the accumulator as the call leaves it.
\<close>

subsection \<open>Exceptions and tensor primitives\<close>

datatype error = IndexError | RuntimeError | AssertionError

text \<open>
  \<^verbatim>\<open>t[mask]\<close> for a one-dimensional tensor and a one-dimensional boolean mask: the
  shapes must agree, otherwise torch raises \<^verbatim>\<open>IndexError\<close>; the result keeps the entries
  whose mask bit is set, in order.
\<close>

definition mask_index :: "'a list \<Rightarrow> bool list \<Rightarrow> error + 'a list" where
  "mask_index t bmask =
     (if length bmask \<noteq> length t then Inl IndexError
      else Inr (map fst (filter snd (zip t bmask))))"

text \<open>\<^verbatim>\<open>~mask\<close>: elementwise negation.\<close>

definition invert :: "bool list \<Rightarrow> bool list" where
  "invert bmask = map Not bmask"

text \<open>
  \<^verbatim>\<open>len(t[t == 1])\<close>: the mask \<^verbatim>\<open>t == 1\<close> has the shape of \<^verbatim>\<open>t\<close>, so the indexing cannot
  raise; the length of the selection is the number of entries equal to 1.
\<close>

definition len_eq_one :: "int list \<Rightarrow> int" where
  "len_eq_one t = int (length (filter (\<lambda>p. p = 1) t))"

text \<open>
  Python's builtin \<^verbatim>\<open>max(a, b)\<close> returns \<^verbatim>\<open>a\<close> unless \<^verbatim>\<open>b > a\<close>.
\<close>

definition py_max :: "int \<Rightarrow> int \<Rightarrow> int" where
  "py_max a b = (if b > a then b else a)"

subsection \<open>The accumulator shared by both metrics\<close>

record metric_state =
  preds_adv_pos :: int
  preds_dis_pos :: int
  num_adv :: int
  num_dis :: int

text \<open>\<^verbatim>\<open>__init__\<close>: the four states registered with default \<^verbatim>\<open>torch.tensor(0)\<close>.\<close>

definition metric_init :: metric_state where
  "metric_init = \<lparr>preds_adv_pos = 0, preds_dis_pos = 0, num_adv = 0, num_dis = 0\<rparr>"

subsection \<open>SPD\<close>

text \<open>
  \<^verbatim>\<open>SPD.update\<close>. Both mask selections come before the first counter is touched, so an
  exception leaves the accumulator as it was.
\<close>

definition SPD_update ::
  "metric_state \<Rightarrow> int list \<Rightarrow> bool list \<Rightarrow> error option \<times> metric_state" where
  "SPD_update st preds adv_mask =
     (case mask_index preds adv_mask of
        Inl e \<Rightarrow> (Some e, st)
      | Inr preds_adv \<Rightarrow>
     (case mask_index preds (invert adv_mask) of
        Inl e \<Rightarrow> (Some e, st)
      | Inr preds_dis \<Rightarrow>
         (None,
          st\<lparr>preds_adv_pos := preds_adv_pos st + len_eq_one preds_adv,
             preds_dis_pos := preds_dis_pos st + len_eq_one preds_dis,
             num_adv := num_adv st + int (length preds_adv),
             num_dis := num_dis st + int (length preds_dis)\<rparr>)))"

text \<open>
  \<^verbatim>\<open>compute\<close>, the same text in both classes: integer counters, true division, absolute
  value, returned as a Python float.
\<close>

definition metric_compute :: "metric_state \<Rightarrow> real" where
  "metric_compute st =
     (let p_adv = real_of_int (preds_adv_pos st) / real_of_int (py_max (num_adv st) 1);
          p_dis = real_of_int (preds_dis_pos st) / real_of_int (py_max (num_dis st) 1)
      in \<bar>p_adv - p_dis\<bar>)"

definition SPD_compute :: "metric_state \<Rightarrow> real" where
  "SPD_compute = metric_compute"

text \<open>
  An update history: the calls of \<^verbatim>\<open>update\<close> in order. An exception ends the history
  with the accumulator as the failing call left it.
\<close>

fun SPD_run ::
  "metric_state \<Rightarrow> (int list \<times> bool list) list \<Rightarrow> error option \<times> metric_state" where
  "SPD_run st [] = (None, st)"
| "SPD_run st ((preds, adv_mask) # bs) =
     (case SPD_update st preds adv_mask of
        (Some e, st') \<Rightarrow> (Some e, st')
      | (None, st') \<Rightarrow> SPD_run st' bs)"

subsection \<open>EOD\<close>

text \<open>\<^verbatim>\<open>targets.bool()\<close>: an entry is true when it is not zero.\<close>

definition to_bool :: "int list \<Rightarrow> bool list" where
  "to_bool t = map (\<lambda>x. x \<noteq> 0) t"

text \<open>
  \<^verbatim>\<open>torch.logical_and(a, b)\<close> on one-dimensional tensors. Torch broadcasts: tensors of
  equal length are combined elementwise, a tensor of length 1 is stretched to the
  length of the other, and any other pair of lengths raises \<^verbatim>\<open>RuntimeError\<close>.
\<close>

definition logical_and :: "bool list \<Rightarrow> bool list \<Rightarrow> error + bool list" where
  "logical_and a b =
     (if length a = length b then Inr (map (\<lambda>(x, y). x \<and> y) (zip a b))
      else if length a = 1 then Inr (map (\<lambda>y. hd a \<and> y) b)
      else if length b = 1 then Inr (map (\<lambda>x. x \<and> hd b) a)
      else Inl RuntimeError)"

text \<open>\<^verbatim>\<open>m.sum()\<close> of a boolean tensor: the number of true entries.\<close>

definition bool_sum :: "bool list \<Rightarrow> int" where
  "bool_sum m = int (length (filter (\<lambda>b. b) m))"

text \<open>
  \<^verbatim>\<open>EOD.update\<close>. The two selections (lines 80 and 81) are the only places that can
  raise, and both come before the first counter is touched. Lines 88 and 89 evaluate
  the same two \<^verbatim>\<open>logical_and\<close> expressions again; the model reuses their values.
\<close>

definition EOD_update ::
  "metric_state \<Rightarrow> int list \<Rightarrow> int list \<Rightarrow> bool list \<Rightarrow> error option \<times> metric_state" where
  "EOD_update st preds targets adv_mask =
     (case logical_and adv_mask (to_bool targets) of
        Inl e \<Rightarrow> (Some e, st)
      | Inr m_adv \<Rightarrow>
     (case mask_index preds m_adv of
        Inl e \<Rightarrow> (Some e, st)
      | Inr preds_adv \<Rightarrow>
     (case logical_and (invert adv_mask) (to_bool targets) of
        Inl e \<Rightarrow> (Some e, st)
      | Inr m_dis \<Rightarrow>
     (case mask_index preds m_dis of
        Inl e \<Rightarrow> (Some e, st)
      | Inr preds_dis \<Rightarrow>
         (None,
          st\<lparr>preds_adv_pos := preds_adv_pos st + len_eq_one preds_adv,
             preds_dis_pos := preds_dis_pos st + len_eq_one preds_dis,
             num_adv := num_adv st + bool_sum m_adv,
             num_dis := num_dis st + bool_sum m_dis\<rparr>)))))"

definition EOD_compute :: "metric_state \<Rightarrow> real" where
  "EOD_compute = metric_compute"

fun EOD_run ::
  "metric_state \<Rightarrow> (int list \<times> int list \<times> bool list) list \<Rightarrow> error option \<times> metric_state" where
  "EOD_run st [] = (None, st)"
| "EOD_run st ((preds, targets, adv_mask) # bs) =
     (case EOD_update st preds targets adv_mask of
        (Some e, st') \<Rightarrow> (Some e, st')
      | (None, st') \<Rightarrow> EOD_run st' bs)"

subsection \<open>Combining accumulators\<close>

text \<open>
  Every state is registered with \<^verbatim>\<open>dist_reduce_fx="sum"\<close>: the accumulators of parallel
  shards are combined by adding each counter.
\<close>

definition merge_states :: "metric_state \<Rightarrow> metric_state \<Rightarrow> metric_state" where
  "merge_states a b =
     \<lparr>preds_adv_pos = preds_adv_pos a + preds_adv_pos b,
      preds_dis_pos = preds_dis_pos a + preds_dis_pos b,
      num_adv = num_adv a + num_adv b,
      num_dis = num_dis a + num_dis b\<rparr>"

subsection \<open>FairnessLoss\<close>

text \<open>
  A tensor is its shape and its entries in row-major order; \<^verbatim>\<open>ndim\<close> is the length of
  the shape. The argument \<^verbatim>\<open>theta\<close> is any Python object: a tensor or something else.
\<close>

datatype tensor = Tensor (shape: "nat list") (elems: "real list")

datatype pyobj = PyTensor tensor | PyOther

definition ndim :: "tensor \<Rightarrow> nat" where
  "ndim t = length (shape t)"

text \<open>
  The feature matrix \<^verbatim>\<open>X\<close> is a two-dimensional tensor of shape
  \<open>(length (rows X), ncols X)\<close>, kept as its list of rows.
\<close>

record matrix =
  ncols :: nat
  rows :: "real list list"

definition wf_matrix :: "matrix \<Rightarrow> bool" where
  "wf_matrix X = list_all (\<lambda>r. length r = ncols X) (rows X)"

text \<open>The result of \<^verbatim>\<open>torch.mean\<close>: a number, or not-a-number for an empty tensor.\<close>

datatype fscalar = NaN | Val real

definition tensor_mean :: "real list \<Rightarrow> fscalar" where
  "tensor_mean t = (if t = [] then NaN else Val (sum_list t / real (length t)))"

text \<open>
  \<^verbatim>\<open>X[:, idx]\<close>: a negative index counts from the last column; an index outside
  \<open>[-ncols, ncols)\<close> raises \<^verbatim>\<open>IndexError\<close>.
\<close>

definition select_col :: "matrix \<Rightarrow> int \<Rightarrow> error + real list" where
  "select_col X idx =
     (let d = int (ncols X); j = (if idx < 0 then d + idx else idx)
      in if 0 \<le> j \<and> j < d then Inr (map (\<lambda>r. r ! nat j) (rows X))
         else Inl IndexError)"

text \<open>
  \<^verbatim>\<open>X @ v\<close> for a matrix and a one-dimensional tensor: the number of columns must be the
  length of \<open>v\<close>, otherwise torch raises \<^verbatim>\<open>RuntimeError\<close>; entry \<open>i\<close> of the result is
  the dot product of row \<open>i\<close> with \<open>v\<close>.
\<close>

definition dot :: "real list \<Rightarrow> real list \<Rightarrow> real" where
  "dot r v = sum_list (map (\<lambda>(x, y). x * y) (zip r v))"

definition matvec :: "matrix \<Rightarrow> real list \<Rightarrow> error + real list" where
  "matvec X v =
     (if ncols X \<noteq> length v then Inl RuntimeError
      else Inr (map (\<lambda>r. dot r v) (rows X)))"

text \<open>
  \<^verbatim>\<open>FairnessLoss.forward\<close>, with the index stored by \<^verbatim>\<open>__init__\<close> as first argument.
  The \<^verbatim>\<open>assert\<close> statement is executed (Python not run with \<^verbatim>\<open>-O\<close>).
  \<^verbatim>\<open>theta[:-1]\<close> is \<open>butlast\<close>. When \<^verbatim>\<open>z\<close> is empty its mean is not-a-number, every
  tensor after it is empty and the final mean is not-a-number again.
\<close>

definition forward :: "int \<Rightarrow> matrix \<Rightarrow> pyobj \<Rightarrow> error + fscalar" where
  "forward sensitive_attribute_idx X theta =
     (case theta of
        PyOther \<Rightarrow> Inl AssertionError
      | PyTensor th \<Rightarrow>
          if ndim th \<noteq> 1 then Inl AssertionError
          else
     (case select_col X sensitive_attribute_idx of
        Inl e \<Rightarrow> Inl e
      | Inr z \<Rightarrow>
     (case matvec X (butlast (elems th)) of
        Inl e \<Rightarrow> Inl e
      | Inr score \<Rightarrow>
     (case tensor_mean z of
        NaN \<Rightarrow> Inr NaN
      | Val z_bar \<Rightarrow>
          Inr (tensor_mean
                 (map (\<lambda>(c, s). c * s) (zip (map (\<lambda>zi. zi - z_bar) z) score)))))))"

subsection \<open>FairnessLoss in floating point\<close>

text \<open>
  Rounding to the nearest integer, a tie going to the even neighbour.
\<close>

definition round_even :: "real \<Rightarrow> int" where
  "round_even q =
     (let f = \<lfloor>q\<rfloor>; d = q - of_int f
      in if d < 1 / 2 then f else if 1 / 2 < d then f + 1
         else if even f then f else f + 1)"

text \<open>
  The binary exponent of a non-zero real: the \<open>e\<close> with \<open>2\<^sup>e \<le> \<bar>x\<bar> < 2\<^sup>e\<^sup>+\<^sup>1\<close>, read off
  the bit length of the integer part, or of the reciprocal for \<open>\<bar>x\<bar> < 1\<close>.
\<close>

definition exponent :: "real \<Rightarrow> int" where
  "exponent x =
     (if 1 \<le> \<bar>x\<bar> then bitlen \<lfloor>\<bar>x\<bar>\<rfloor> - 1 else - bitlen (\<lceil>1 / \<bar>x\<bar>\<rceil> - 1))"

text \<open>
  IEEE 754 binary64 (\<^verbatim>\<open>torch.float64\<close>, the dtype \<^verbatim>\<open>torch.tensor\<close> gives a NumPy array of
  doubles, which is how \<^verbatim>\<open>datamodule.py\<close> builds \<^verbatim>\<open>X\<close>) rounds a real to the nearest number with a 53-bit significand, ties
  to even: with \<open>e\<close> the exponent of \<open>x\<close> the representable numbers around \<open>x\<close> are the
  multiples of \<open>2\<^sup>e\<^sup>-\<^sup>5\<^sup>2\<close>. Overflow to infinity and the reduced precision of subnormal
  numbers (below \<open>2\<^sup>-\<^sup>1\<^sup>0\<^sup>2\<^sup>2\<close>) are not modelled.
\<close>

definition binary64 :: "real \<Rightarrow> real" where
  "binary64 x =
     (if x = 0 then 0
      else let u = 2 powi (exponent x - 52) in of_int (round_even (x / u)) * u)"

text \<open>
  The tensor operations of \<^verbatim>\<open>forward\<close> with every arithmetic result rounded by \<open>rnd\<close>.
  \<^verbatim>\<open>t.sum()\<close> adds the entries from left to right (torch does not fix the order of
  a sum; for up to three equal entries every order gives the same result);
  \<^verbatim>\<open>t.mean()\<close> is the rounded sum divided by the number of entries, the count
  converted exactly; a dot product rounds each product and each partial sum.
\<close>

definition fl_sum :: "(real \<Rightarrow> real) \<Rightarrow> real list \<Rightarrow> real" where
  "fl_sum rnd t = foldl (\<lambda>acc x. rnd (acc + x)) 0 t"

definition fl_mean :: "(real \<Rightarrow> real) \<Rightarrow> real list \<Rightarrow> fscalar" where
  "fl_mean rnd t =
     (if t = [] then NaN else Val (rnd (fl_sum rnd t / real (length t))))"

definition fl_dot :: "(real \<Rightarrow> real) \<Rightarrow> real list \<Rightarrow> real list \<Rightarrow> real" where
  "fl_dot rnd r v = fl_sum rnd (map (\<lambda>(x, y). rnd (x * y)) (zip r v))"

definition fl_matvec :: "(real \<Rightarrow> real) \<Rightarrow> matrix \<Rightarrow> real list \<Rightarrow> error + real list" where
  "fl_matvec rnd X v =
     (if ncols X \<noteq> length v then Inl RuntimeError
      else Inr (map (\<lambda>r. fl_dot rnd r v) (rows X)))"

text \<open>
  \<^verbatim>\<open>FairnessLoss.forward\<close> on floating-point tensors: the definition of \<open>forward\<close> with
  the rounded operations, and the subtraction and the product of line 131 rounded
  entry by entry. With the identity for \<open>rnd\<close> it is \<open>forward\<close>.
\<close>

definition forward_rounded ::
  "(real \<Rightarrow> real) \<Rightarrow> int \<Rightarrow> matrix \<Rightarrow> pyobj \<Rightarrow> error + fscalar" where
  "forward_rounded rnd sensitive_attribute_idx X theta =
     (case theta of
        PyOther \<Rightarrow> Inl AssertionError
      | PyTensor th \<Rightarrow>
          if ndim th \<noteq> 1 then Inl AssertionError
          else
     (case select_col X sensitive_attribute_idx of
        Inl e \<Rightarrow> Inl e
      | Inr z \<Rightarrow>
     (case fl_matvec rnd X (butlast (elems th)) of
        Inl e \<Rightarrow> Inl e
      | Inr score \<Rightarrow>
     (case fl_mean rnd z of
        NaN \<Rightarrow> Inr NaN
      | Val z_bar \<Rightarrow>
          Inr (fl_mean rnd
                 (map (\<lambda>(c, s). rnd (c * s))
                    (zip (map (\<lambda>zi. rnd (zi - z_bar)) z) score)))))))"

subsection \<open>The specification's formulas\<close>

text \<open>
  The probability of a subgroup as the specification words it: the ratio of the
  positive count to the total, defined as 0 when the total is 0.
\<close>

definition spec_prob :: "int \<Rightarrow> int \<Rightarrow> real" where
  "spec_prob cnt tot = (if tot = 0 then 0 else real_of_int cnt / real_of_int tot)"

text \<open>
  The column a Python index denotes in a tensor with \<open>d\<close> columns.
\<close>

definition col_of :: "nat \<Rightarrow> int \<Rightarrow> nat" where
  "col_of d idx = nat (if idx < 0 then int d + idx else idx)"

text \<open>
  The loss as the specification words it, \<open>1/N \<Sum>\<^sub>i (z\<^sub>i - z_bar) * (\<theta>\<^sup>T x\<^sub>i)\<close>, over the
  entries \<open>x\<^sub>i\<^sub>k\<close> of the matrix, with the last entry of \<open>\<theta>\<close> left out of the product.
\<close>

definition spec_covariance :: "nat \<Rightarrow> matrix \<Rightarrow> real list \<Rightarrow> real" where
  "spec_covariance j X theta =
     (let N = length (rows X);
          x = (\<lambda>i k. rows X ! i ! k);
          z_bar = (\<Sum>i<N. x i j) / real N
      in (\<Sum>i<N. (x i j - z_bar) * (\<Sum>k<length theta - 1. x i k * theta ! k)) / real N)"

text \<open>
  Counting as the specification words it: the number of sample indices of a batch of
  \<open>n\<close> samples that satisfy a condition.
\<close>

definition count_where :: "nat \<Rightarrow> (nat \<Rightarrow> bool) \<Rightarrow> int" where
  "count_where n P = int (card {i. i < n \<and> P i})"

subsection \<open>The invariant of the counters\<close>

text \<open>
  Every counter is non-negative and a subgroup's positive count never exceeds its
  total.
\<close>

definition counters_ok :: "metric_state \<Rightarrow> bool" where
  "counters_ok st =
     (0 \<le> preds_adv_pos st \<and> preds_adv_pos st \<le> num_adv st \<and>
      0 \<le> preds_dis_pos st \<and> preds_dis_pos st \<le> num_dis st)"

section \<open>Properties\<close>

subsection \<open>The invariant holds along every update history\<close>

lemma len_eq_one_bounds: "0 \<le> len_eq_one t \<and> len_eq_one t \<le> int (length t)"
  by (simp add: len_eq_one_def)

lemma length_mask_index:
  "mask_index t m = Inr r \<Longrightarrow> int (length r) = bool_sum m"
proof -
  have "length (filter snd (zip t m)) = length (filter (\<lambda>b. b) m)" if "length t = length m"
    for t :: "'a list" and m
    using that by (induction t m rule: list_induct2) auto
  then show "mask_index t m = Inr r \<Longrightarrow> int (length r) = bool_sum m"
    by (auto simp: mask_index_def bool_sum_def split: if_splits)
qed

lemma SPD_update_ok:
  "counters_ok st \<Longrightarrow> counters_ok (snd (SPD_update st preds adv_mask))"
  using len_eq_one_bounds
  by (auto simp: SPD_update_def counters_ok_def add_mono split: sum.splits)

lemma EOD_update_ok:
  "counters_ok st \<Longrightarrow> counters_ok (snd (EOD_update st preds targets adv_mask))"
  using len_eq_one_bounds
  by (auto simp: EOD_update_def counters_ok_def add_mono
      simp flip: length_mask_index split: sum.splits)

lemma SPD_run_ok: "counters_ok st \<Longrightarrow> counters_ok (snd (SPD_run st h))"
proof (induction h arbitrary: st)
  case Nil
  then show ?case by simp
next
  case (Cons b h)
  obtain p m where b: "b = (p, m)" by (cases b)
  obtain e st' where u: "SPD_update st p m = (e, st')" by (cases "SPD_update st p m")
  have "counters_ok st'" using SPD_update_ok [OF Cons.prems, of p m] u by simp
  then show ?case using Cons.IH [of st'] b u by (cases e) simp_all
qed

lemma EOD_run_ok: "counters_ok st \<Longrightarrow> counters_ok (snd (EOD_run st h))"
proof (induction h arbitrary: st)
  case Nil
  then show ?case by simp
next
  case (Cons b h)
  obtain p t m where b: "b = (p, t, m)" by (cases b)
  obtain e st' where u: "EOD_update st p t m = (e, st')" by (cases "EOD_update st p t m")
  have "counters_ok st'" using EOD_update_ok [OF Cons.prems, of p t m] u by simp
  then show ?case using Cons.IH [of st'] b u by (cases e) simp_all
qed

lemma counters_ok_init: "counters_ok metric_init"
  by (simp add: counters_ok_def metric_init_def)

lemma metric_compute_range:
  "counters_ok st \<Longrightarrow> 0 \<le> metric_compute st \<and> metric_compute st \<le> 1"
proof -
  assume ok: "counters_ok st"
  have r: "0 \<le> real_of_int a / real_of_int (py_max b 1) \<and>
           real_of_int a / real_of_int (py_max b 1) \<le> 1" if "0 \<le> a" "a \<le> b" for a b
    using that by (auto simp: py_max_def divide_le_eq_1)
  from ok have a: "0 \<le> preds_adv_pos st" "preds_adv_pos st \<le> num_adv st"
    and d: "0 \<le> preds_dis_pos st" "preds_dis_pos st \<le> num_dis st"
    by (simp_all add: counters_ok_def)
  from r [OF a] r [OF d] show ?thesis
    by (simp add: metric_compute_def Let_def abs_le_iff)
qed

text \<open>
  Claim C5. After any update history, starting from a fresh accumulator, the value
  returned by \<^verbatim>\<open>SPD.compute\<close> and by \<^verbatim>\<open>EOD.compute\<close> lies in the closed interval
  \<open>[0, 1]\<close>. This holds for every history, also one whose predictions or targets are
  not in \<open>{0, 1}\<close> and one that an exception ended.
\<close>

theorem compute_in_unit_interval:
  "0 \<le> SPD_compute (snd (SPD_run metric_init h)) \<and>
   SPD_compute (snd (SPD_run metric_init h)) \<le> 1 \<and>
   0 \<le> EOD_compute (snd (EOD_run metric_init g)) \<and>
   EOD_compute (snd (EOD_run metric_init g)) \<le> 1"
  using metric_compute_range [OF SPD_run_ok [OF counters_ok_init, of h]]
    metric_compute_range [OF EOD_run_ok [OF counters_ok_init, of g]]
  by (simp add: SPD_compute_def EOD_compute_def)

subsection \<open>The value of \<^verbatim>\<open>SPD.compute\<close>\<close>

lemma spec_prob_eq:
  "0 \<le> c \<Longrightarrow> c \<le> n \<Longrightarrow>
   real_of_int c / real_of_int (py_max n 1) = spec_prob c n"
  by (auto simp: py_max_def spec_prob_def)

lemma py_max_eq_max: "py_max a b = max a b"
  by (simp add: py_max_def max_def)

lemma SPD_update_no_adv:
  "True \<notin> set adv_mask \<Longrightarrow> num_adv (snd (SPD_update st preds adv_mask)) = num_adv st"
proof -
  assume f: "True \<notin> set adv_mask"
  have "filter snd (zip preds adv_mask) = []"
    using f by (auto simp: filter_empty_conv dest: set_zip_rightD)
  then show ?thesis
    by (simp add: SPD_update_def mask_index_def split: sum.splits)
qed

lemma SPD_run_no_adv:
  "list_all (\<lambda>(p, m). True \<notin> set m) h \<Longrightarrow> num_adv (snd (SPD_run st h)) = num_adv st"
proof (induction h arbitrary: st)
  case Nil
  then show ?case by simp
next
  case (Cons b h)
  obtain p m where b: "b = (p, m)" by (cases b)
  obtain e st' where u: "SPD_update st p m = (e, st')" by (cases "SPD_update st p m")
  have "num_adv st' = num_adv st"
    using SPD_update_no_adv [of m st p] Cons.prems b u by simp
  then show ?case using Cons.IH [of st'] Cons.prems b u by (cases e) simp_all
qed

text \<open>
  Claim C1. After any update history, \<^verbatim>\<open>SPD.compute\<close> returns
  \<open>\<bar>preds_adv_pos / max(num_adv, 1) - preds_dis_pos / max(num_dis, 1)\<bar>\<close>, where no
  denominator is 0, so no division can fail; this is the absolute difference of the
  two subgroup probabilities with the probability of a subgroup whose total is 0
  defined as 0; and when the advantage mask was all false
  in every update, the result is the positive rate of the disadvantaged subgroup,
  \<open>preds_dis_pos / max(num_dis, 1)\<close>.
\<close>

theorem SPD_compute_formula:
  assumes "st = snd (SPD_run metric_init h)"
  shows "1 \<le> py_max (num_adv st) 1 \<and> 1 \<le> py_max (num_dis st) 1 \<and>
         SPD_compute st =
           \<bar>real_of_int (preds_adv_pos st) / real_of_int (max (num_adv st) 1)
            - real_of_int (preds_dis_pos st) / real_of_int (max (num_dis st) 1)\<bar> \<and>
         SPD_compute st =
           \<bar>spec_prob (preds_adv_pos st) (num_adv st)
            - spec_prob (preds_dis_pos st) (num_dis st)\<bar> \<and>
         (list_all (\<lambda>(preds, adv_mask). True \<notin> set adv_mask) h \<longrightarrow>
            SPD_compute st =
              real_of_int (preds_dis_pos st) / real_of_int (max (num_dis st) 1))"
proof -
  have ok: "counters_ok st"
    using assms SPD_run_ok [OF counters_ok_init, of h] by simp
  then have a: "0 \<le> preds_adv_pos st" "preds_adv_pos st \<le> num_adv st"
    and d: "0 \<le> preds_dis_pos st" "preds_dis_pos st \<le> num_dis st"
    by (simp_all add: counters_ok_def)
  have 1: "SPD_compute st =
           \<bar>real_of_int (preds_adv_pos st) / real_of_int (max (num_adv st) 1)
            - real_of_int (preds_dis_pos st) / real_of_int (max (num_dis st) 1)\<bar>"
    by (simp add: SPD_compute_def metric_compute_def Let_def py_max_eq_max)
  have 2: "SPD_compute st =
           \<bar>spec_prob (preds_adv_pos st) (num_adv st)
            - spec_prob (preds_dis_pos st) (num_dis st)\<bar>"
    by (simp add: SPD_compute_def metric_compute_def Let_def
        spec_prob_eq [OF a] spec_prob_eq [OF d])
  have 3: "SPD_compute st =
              real_of_int (preds_dis_pos st) / real_of_int (max (num_dis st) 1)"
    if "list_all (\<lambda>(preds, adv_mask). True \<notin> set adv_mask) h"
  proof -
    have "num_adv st = 0"
      using SPD_run_no_adv [OF that, of metric_init] assms by (simp add: metric_init_def)
    with a have "preds_adv_pos st = 0" by simp
    then show ?thesis using 1 d by simp
  qed
  have 0: "1 \<le> py_max (num_adv st) 1" "1 \<le> py_max (num_dis st) 1"
    by (simp_all add: py_max_def)
  from 0 1 2 3 show ?thesis by blast
qed

theorem SPD_compute_formula_witness:
  "SPD_compute (snd (SPD_run metric_init [([1, 0, 1], [False, False, False])])) = 2 / 3 \<and>
   SPD_compute (snd (SPD_run metric_init [([1, 0, 1, 0], [True, True, False, False])])) = 0"
  using SPD_compute_formula [of "snd (SPD_run metric_init [([1, 0, 1], [False, False, False])])"
      "[([1, 0, 1], [False, False, False])]"]
    SPD_compute_formula [of "snd (SPD_run metric_init [([1, 0, 1, 0], [True, True, False, False])])"
      "[([1, 0, 1, 0], [True, True, False, False])]"]
  by (simp add: SPD_update_def mask_index_def invert_def len_eq_one_def metric_init_def
      spec_prob_def)

subsection \<open>Updates on well-formed batches\<close>

lemma SPD_update_wf:
  "length adv_mask = length preds \<Longrightarrow>
   SPD_update st preds adv_mask =
     (None,
      st\<lparr>preds_adv_pos := preds_adv_pos st
             + len_eq_one (map fst (filter snd (zip preds adv_mask))),
         preds_dis_pos := preds_dis_pos st
             + len_eq_one (map fst (filter snd (zip preds (invert adv_mask)))),
         num_adv := num_adv st + int (length (filter snd (zip preds adv_mask))),
         num_dis := num_dis st + int (length (filter snd (zip preds (invert adv_mask))))\<rparr>)"
  by (simp add: SPD_update_def mask_index_def invert_def)

lemma SPD_update_mismatch:
  "length adv_mask \<noteq> length preds \<Longrightarrow>
   SPD_update st preds adv_mask = (Some IndexError, st)"
  by (simp add: SPD_update_def mask_index_def)

lemma len_eq_one_append: "len_eq_one (a @ b) = len_eq_one a + len_eq_one b"
  by (simp add: len_eq_one_def)

lemma invert_append: "invert (a @ b) = invert a @ invert b"
  by (simp add: invert_def)

lemma length_invert: "length (invert a) = length a"
  by (simp add: invert_def)

lemma SPD_update_append:
  assumes "length m1 = length p1" and "length m2 = length p2"
  shows "SPD_update (snd (SPD_update st p1 m1)) p2 m2 = SPD_update st (p1 @ p2) (m1 @ m2)"
proof -
  have l: "length (m1 @ m2) = length (p1 @ p2)" using assms by simp
  show ?thesis
    unfolding SPD_update_wf [OF l] SPD_update_wf [OF assms(1)] snd_conv
      SPD_update_wf [OF assms(2)]
    using assms
    by (simp add: len_eq_one_append invert_append length_invert)
qed

lemma logical_and_eq_len:
  "length a = length b \<Longrightarrow> logical_and a b = Inr (map (\<lambda>(x, y). x \<and> y) (zip a b))"
  by (simp add: logical_and_def)

lemma length_to_bool: "length (to_bool t) = length t"
  by (simp add: to_bool_def)

lemma to_bool_append: "to_bool (a @ b) = to_bool a @ to_bool b"
  by (simp add: to_bool_def)

lemma bool_sum_append: "bool_sum (a @ b) = bool_sum a + bool_sum b"
  by (simp add: bool_sum_def)

lemma EOD_update_wf:
  assumes "length targets = length preds" and "length adv_mask = length preds"
  shows "EOD_update st preds targets adv_mask =
     (None,
      st\<lparr>preds_adv_pos := preds_adv_pos st
             + len_eq_one (map fst (filter snd (zip preds
                 (map (\<lambda>(x, y). x \<and> y) (zip adv_mask (to_bool targets)))))),
         preds_dis_pos := preds_dis_pos st
             + len_eq_one (map fst (filter snd (zip preds
                 (map (\<lambda>(x, y). x \<and> y) (zip (invert adv_mask) (to_bool targets)))))),
         num_adv := num_adv st
             + bool_sum (map (\<lambda>(x, y). x \<and> y) (zip adv_mask (to_bool targets))),
         num_dis := num_dis st
             + bool_sum (map (\<lambda>(x, y). x \<and> y) (zip (invert adv_mask) (to_bool targets)))\<rparr>)"
  using assms
  by (simp add: EOD_update_def logical_and_eq_len length_to_bool length_invert mask_index_def)

lemma EOD_update_append:
  assumes "length t1 = length p1" and "length m1 = length p1"
    and "length t2 = length p2" and "length m2 = length p2"
  shows "EOD_update (snd (EOD_update st p1 t1 m1)) p2 t2 m2
         = EOD_update st (p1 @ p2) (t1 @ t2) (m1 @ m2)"
proof -
  have l: "length (t1 @ t2) = length (p1 @ p2)" "length (m1 @ m2) = length (p1 @ p2)"
    using assms by simp_all
  show ?thesis
    unfolding EOD_update_wf [OF l] EOD_update_wf [OF assms(1,2)] snd_conv
      EOD_update_wf [OF assms(3,4)]
    using assms
    by (simp add: len_eq_one_append invert_append length_invert to_bool_append
        length_to_bool bool_sum_append)
qed

text \<open>
  Claim C6 (streaming additivity). When a batch is split into two sub-batches, the
  predictions, the mask and (for EOD) the targets cut at the same place, updating
  with the first sub-batch and then with the second leaves the accumulator in the
  state that one update with the whole batch gives; no call raises, and
  \<^verbatim>\<open>compute\<close> returns the same value. This holds for SPD and for EOD, from any
  accumulator state.
\<close>

theorem update_streaming_additive:
  assumes "length m1 = length p1" and "length m2 = length p2"
    and "length t1 = length p1" and "length t2 = length p2"
  shows "fst (SPD_update st p1 m1) = None \<and>
         SPD_update (snd (SPD_update st p1 m1)) p2 m2 = SPD_update st (p1 @ p2) (m1 @ m2) \<and>
         fst (SPD_update st (p1 @ p2) (m1 @ m2)) = None \<and>
         SPD_compute (snd (SPD_update (snd (SPD_update st p1 m1)) p2 m2))
           = SPD_compute (snd (SPD_update st (p1 @ p2) (m1 @ m2))) \<and>
         fst (EOD_update st p1 t1 m1) = None \<and>
         EOD_update (snd (EOD_update st p1 t1 m1)) p2 t2 m2
           = EOD_update st (p1 @ p2) (t1 @ t2) (m1 @ m2) \<and>
         fst (EOD_update st (p1 @ p2) (t1 @ t2) (m1 @ m2)) = None \<and>
         EOD_compute (snd (EOD_update (snd (EOD_update st p1 t1 m1)) p2 t2 m2))
           = EOD_compute (snd (EOD_update st (p1 @ p2) (t1 @ t2) (m1 @ m2)))"
proof -
  have l: "length (m1 @ m2) = length (p1 @ p2)" "length (t1 @ t2) = length (p1 @ p2)"
    using assms by simp_all
  have s1: "fst (SPD_update st p1 m1) = None"
    by (simp add: SPD_update_wf [OF assms(1)])
  have s2: "fst (SPD_update st (p1 @ p2) (m1 @ m2)) = None"
    by (simp add: SPD_update_wf [OF l(1)])
  have e1: "fst (EOD_update st p1 t1 m1) = None"
    by (simp add: EOD_update_wf [OF assms(3,1)])
  have e2: "fst (EOD_update st (p1 @ p2) (t1 @ t2) (m1 @ m2)) = None"
    by (simp add: EOD_update_wf [OF l(2,1)])
  note s = SPD_update_append [OF assms(1,2), of st]
  note e = EOD_update_append [OF assms(3,1,4,2), of st]
  from s1 s2 e1 e2 s e show ?thesis by simp
qed

theorem update_streaming_additive_witness:
  "SPD_update (snd (SPD_update metric_init [1, 0] [True, True])) [1, 0] [False, False]
     = SPD_update metric_init [1, 0, 1, 0] [True, True, False, False] \<and>
   SPD_update metric_init [1, 0, 1, 0] [True, True, False, False]
     = (None, \<lparr>preds_adv_pos = 1, preds_dis_pos = 1, num_adv = 2, num_dis = 2\<rparr>) \<and>
   EOD_update (snd (EOD_update metric_init [1, 1] [1, 0] [True, False])) [0, 0] [1, 0] [True, False]
     = EOD_update metric_init [1, 1, 0, 0] [1, 0, 1, 0] [True, False, True, False] \<and>
   EOD_update metric_init [1, 1, 0, 0] [1, 0, 1, 0] [True, False, True, False]
     = (None, \<lparr>preds_adv_pos = 1, preds_dis_pos = 0, num_adv = 2, num_dis = 0\<rparr>)"
  using update_streaming_additive [of "[True, True]" "[1, 0]" "[False, False]" "[1, 0]"
      "[1, 0]" "[1, 0]" metric_init]
    update_streaming_additive [of "[True, False]" "[1, 1]" "[True, False]" "[0, 0]"
      "[1, 0]" "[1, 0]" metric_init]
  by (simp add: SPD_update_def EOD_update_def mask_index_def invert_def len_eq_one_def
      metric_init_def logical_and_def to_bool_def bool_sum_def)

subsection \<open>What one \<^verbatim>\<open>EOD.update\<close> counts\<close>

lemma count_where_cong:
  "(\<And>i. i < n \<Longrightarrow> P i = Q i) \<Longrightarrow> count_where n P = count_where n Q"
proof -
  assume "\<And>i. i < n \<Longrightarrow> P i = Q i"
  then have "{i. i < n \<and> P i} = {i. i < n \<and> Q i}" by auto
  then show ?thesis by (simp add: count_where_def)
qed

lemma bool_sum_count: "bool_sum m = count_where (length m) (\<lambda>i. m ! i)"
  by (simp add: bool_sum_def count_where_def length_filter_conv_card)

lemma selected_ones_count:
  assumes "length m = length preds"
  shows "len_eq_one (map fst (filter snd (zip preds m)))
         = count_where (length preds) (\<lambda>i. m ! i \<and> preds ! i = 1)"
proof -
  have "length (filter (\<lambda>p. p = 1) (map fst (filter snd (zip preds m))))
        = length (filter (\<lambda>z. snd z \<and> fst z = 1) (zip preds m))"
    by (simp add: filter_map o_def conj_commute)
  also have "\<dots> = card {i. i < length (zip preds m) \<and> snd (zip preds m ! i) \<and> fst (zip preds m ! i) = 1}"
    by (simp add: length_filter_conv_card)
  also have "{i. i < length (zip preds m) \<and> snd (zip preds m ! i) \<and> fst (zip preds m ! i) = 1}
             = {i. i < length preds \<and> m ! i \<and> preds ! i = 1}"
    using assms by auto
  finally show ?thesis by (simp add: len_eq_one_def count_where_def)
qed

lemma and_mask_nth:
  assumes "length targets = length a" and "set targets \<subseteq> {0, 1}" and "i < length a"
  shows "map (\<lambda>(x, y). x \<and> y) (zip a (to_bool targets)) ! i = (targets ! i = 1 \<and> a ! i)"
proof -
  have i: "i < length targets" using assms by simp
  then have "targets ! i \<in> set targets" by (rule nth_mem)
  then have "targets ! i = 0 \<or> targets ! i = 1" using assms(2) by auto
  then show ?thesis using assms(1,3) i by (auto simp: to_bool_def)
qed

text \<open>
  Claim C2, as amended. For an \<^verbatim>\<open>EOD.update\<close> whose three vectors have the same length
  and whose targets are 0 or 1, the call does not raise and adds to the four counters
  the counts taken over the samples with \<open>targets = 1\<close> only, split by the mask: the
  advantaged ones predicted 1, the disadvantaged ones predicted 1, the advantaged
  ones, the disadvantaged ones. For \<open>preds = [1,1,0,0]\<close>, \<open>targets = [1,0,1,0]\<close>,
  \<open>adv_mask = [True,False,True,False]\<close> the positively labelled samples 0 and 2 are
  both advantaged, so the counters are \<open>(1, 0, 2, 0)\<close> and \<^verbatim>\<open>compute\<close> returns
  \<open>1/2\<close> (\<open>p_adv = 1/2\<close>, \<open>p_dis = 0\<close>).
\<close>

theorem EOD_update_partition:
  assumes "length targets = length preds" and "length adv_mask = length preds"
    and "set targets \<subseteq> {0, 1}"
  shows "EOD_update st preds targets adv_mask =
     (None,
      st\<lparr>preds_adv_pos := preds_adv_pos st + count_where (length preds)
             (\<lambda>i. targets ! i = 1 \<and> adv_mask ! i \<and> preds ! i = 1),
         preds_dis_pos := preds_dis_pos st + count_where (length preds)
             (\<lambda>i. targets ! i = 1 \<and> \<not> adv_mask ! i \<and> preds ! i = 1),
         num_adv := num_adv st + count_where (length preds)
             (\<lambda>i. targets ! i = 1 \<and> adv_mask ! i),
         num_dis := num_dis st + count_where (length preds)
             (\<lambda>i. targets ! i = 1 \<and> \<not> adv_mask ! i)\<rparr>) \<and>
     EOD_update metric_init [1, 1, 0, 0] [1, 0, 1, 0] [True, False, True, False]
       = (None, \<lparr>preds_adv_pos = 1, preds_dis_pos = 0, num_adv = 2, num_dis = 0\<rparr>) \<and>
     EOD_compute (snd (EOD_update metric_init [1, 1, 0, 0] [1, 0, 1, 0]
       [True, False, True, False])) = 1 / 2"
proof -
  let ?n = "length preds"
  let ?A = "map (\<lambda>(x, y). x \<and> y) (zip adv_mask (to_bool targets))"
  let ?D = "map (\<lambda>(x, y). x \<and> y) (zip (invert adv_mask) (to_bool targets))"
  have lA: "length ?A = ?n" and lD: "length ?D = ?n"
    using assms by (simp_all add: to_bool_def invert_def)
  have nA: "?A ! i = (targets ! i = 1 \<and> adv_mask ! i)" if "i < ?n" for i
    using and_mask_nth [of targets adv_mask i] assms that by simp
  have nD: "?D ! i = (targets ! i = 1 \<and> \<not> adv_mask ! i)" if "i < ?n" for i
    using and_mask_nth [of targets "invert adv_mask" i] assms that
    by (simp add: invert_def)
  have 1: "len_eq_one (map fst (filter snd (zip preds ?A)))
           = count_where ?n (\<lambda>i. targets ! i = 1 \<and> adv_mask ! i \<and> preds ! i = 1)"
    unfolding selected_ones_count [OF lA]
    by (rule count_where_cong) (simp add: nA)
  have 2: "len_eq_one (map fst (filter snd (zip preds ?D)))
           = count_where ?n (\<lambda>i. targets ! i = 1 \<and> \<not> adv_mask ! i \<and> preds ! i = 1)"
    unfolding selected_ones_count [OF lD]
    by (rule count_where_cong) (simp add: nD)
  have 3: "bool_sum ?A = count_where ?n (\<lambda>i. targets ! i = 1 \<and> adv_mask ! i)"
    unfolding bool_sum_count lA
    by (rule count_where_cong) (simp add: nA)
  have 4: "bool_sum ?D = count_where ?n (\<lambda>i. targets ! i = 1 \<and> \<not> adv_mask ! i)"
    unfolding bool_sum_count lD
    by (rule count_where_cong) (simp add: nD)
  have ex: "EOD_update metric_init [1, 1, 0, 0] [1, 0, 1, 0] [True, False, True, False]
       = (None, \<lparr>preds_adv_pos = 1, preds_dis_pos = 0, num_adv = 2, num_dis = 0\<rparr>)"
    by (simp add: EOD_update_def mask_index_def invert_def len_eq_one_def
      metric_init_def logical_and_def to_bool_def bool_sum_def)
  have "EOD_compute \<lparr>preds_adv_pos = 1, preds_dis_pos = 0, num_adv = 2, num_dis = 0\<rparr> = 1 / 2"
    by (simp add: EOD_compute_def metric_compute_def py_max_def)
  with ex show ?thesis
    unfolding EOD_update_wf [OF assms(1,2)] 1 2 3 4 by simp
qed

theorem EOD_update_partition_witness:
  "length [1, 0, 1, 0 :: int] = length [1, 1, 0, 0 :: int] \<and>
   set [1, 0, 1, 0 :: int] \<subseteq> {0, 1} \<and>
   EOD_update metric_init [1, 1, 0, 0] [1, 0, 1, 0] [True, False, True, False] =
     (None,
      \<lparr>preds_adv_pos = count_where (length [1, 1, 0, 0 :: int]) (\<lambda>i. [1, 0, 1, 0 :: int] ! i = 1
           \<and> [True, False, True, False] ! i \<and> [1, 1, 0, 0 :: int] ! i = 1),
       preds_dis_pos = count_where (length [1, 1, 0, 0 :: int]) (\<lambda>i. [1, 0, 1, 0 :: int] ! i = 1
           \<and> \<not> [True, False, True, False] ! i \<and> [1, 1, 0, 0 :: int] ! i = 1),
       num_adv = count_where (length [1, 1, 0, 0 :: int]) (\<lambda>i. [1, 0, 1, 0 :: int] ! i = 1
           \<and> [True, False, True, False] ! i),
       num_dis = count_where (length [1, 1, 0, 0 :: int]) (\<lambda>i. [1, 0, 1, 0 :: int] ! i = 1
           \<and> \<not> [True, False, True, False] ! i)\<rparr>)"
  using EOD_update_partition [of "[1, 0, 1, 0]" "[1, 1, 0, 0]" "[True, False, True, False]"
      metric_init]
  by (simp add: metric_init_def)

text \<open>
  The value the claim gives for the example, 1.0, is not what the code returns.
\<close>

theorem EOD_example_counterexample:
  "EOD_compute (snd (EOD_update metric_init [1, 1, 0, 0] [1, 0, 1, 0]
     [True, False, True, False])) \<noteq> 1"
  by (simp add: EOD_update_def mask_index_def invert_def len_eq_one_def
      metric_init_def logical_and_def to_bool_def bool_sum_def
      EOD_compute_def metric_compute_def py_max_def)

subsection \<open>Order of the updates\<close>

lemma SPD_update_fst_indep:
  "fst (SPD_update st preds adv_mask) = fst (SPD_update st' preds adv_mask)"
  by (simp add: SPD_update_def split: sum.splits)

lemma EOD_update_fst_indep:
  "fst (EOD_update st preds targets adv_mask) = fst (EOD_update st' preds targets adv_mask)"
  by (simp add: EOD_update_def split: sum.splits)

lemma SPD_step_commute:
  "snd (SPD_update (snd (SPD_update st p m)) p' m')
   = snd (SPD_update (snd (SPD_update st p' m')) p m)"
  by (simp add: SPD_update_def split: sum.splits)

lemma EOD_step_commute:
  "snd (EOD_update (snd (EOD_update st p t m)) p' t' m')
   = snd (EOD_update (snd (EOD_update st p' t' m')) p t m)"
  by (simp add: EOD_update_def split: sum.splits)

lemma SPD_run_fold:
  "list_all (\<lambda>b. fst (SPD_update metric_init (fst b) (snd b)) = None) bs \<Longrightarrow>
   SPD_run st bs = (None, fold (\<lambda>b s. snd (SPD_update s (fst b) (snd b))) bs st)"
proof (induction bs arbitrary: st)
  case Nil
  then show ?case by simp
next
  case (Cons b bs)
  obtain p m where b: "b = (p, m)" by (cases b)
  obtain e st' where u: "SPD_update st p m = (e, st')" by (cases "SPD_update st p m")
  have "e = None"
    using Cons.prems b u SPD_update_fst_indep [of st p m metric_init] by simp
  then show ?case using Cons b u by simp
qed

lemma SPD_run_success:
  "fst (SPD_run st bs) = None
   \<longleftrightarrow> list_all (\<lambda>b. fst (SPD_update metric_init (fst b) (snd b)) = None) bs"
proof (induction bs arbitrary: st)
  case Nil
  then show ?case by simp
next
  case (Cons b bs)
  obtain p m where b: "b = (p, m)" by (cases b)
  obtain e st' where u: "SPD_update st p m = (e, st')" by (cases "SPD_update st p m")
  have e: "fst (SPD_update metric_init p m) = e"
    using u SPD_update_fst_indep [of st p m metric_init] by simp
  show ?case using Cons.IH [of st'] b u e by (cases e) simp_all
qed

lemma EOD_run_fold:
  "list_all (\<lambda>(p, t, m). fst (EOD_update metric_init p t m) = None) bs \<Longrightarrow>
   EOD_run st bs = (None, fold (\<lambda>(p, t, m) s. snd (EOD_update s p t m)) bs st)"
proof (induction bs arbitrary: st)
  case Nil
  then show ?case by simp
next
  case (Cons b bs)
  obtain p t m where b: "b = (p, t, m)" by (cases b)
  obtain e st' where u: "EOD_update st p t m = (e, st')" by (cases "EOD_update st p t m")
  have "e = None"
    using Cons.prems b u EOD_update_fst_indep [of st p t m metric_init] by simp
  then show ?case using Cons b u by simp
qed

lemma EOD_run_success:
  "fst (EOD_run st bs) = None
   \<longleftrightarrow> list_all (\<lambda>(p, t, m). fst (EOD_update metric_init p t m) = None) bs"
proof (induction bs arbitrary: st)
  case Nil
  then show ?case by simp
next
  case (Cons b bs)
  obtain p t m where b: "b = (p, t, m)" by (cases b)
  obtain e st' where u: "EOD_update st p t m = (e, st')" by (cases "EOD_update st p t m")
  have e: "fst (EOD_update metric_init p t m) = e"
    using u EOD_update_fst_indep [of st p t m metric_init] by simp
  show ?case using Cons.IH [of st'] b u e by (cases e) simp_all
qed

lemma list_all_mset: "mset xs = mset ys \<Longrightarrow> list_all P xs = list_all P ys"
  by (auto simp: list_all_iff dest: mset_eq_setD)

text \<open>
  Claim C8 (update-order invariance). When a sequence of batches is applied without
  an exception, applying the same batches in any other order (any list with the same
  multiset of batches) raises no exception either and leaves the accumulator in the
  same final state, so \<^verbatim>\<open>compute\<close> returns the same value. This holds for SPD and
  for EOD, from any starting state.
\<close>

theorem update_order_invariant:
  "(mset bs' = mset bs \<and> fst (SPD_run st bs) = None
      \<longrightarrow> SPD_run st bs' = SPD_run st bs
          \<and> SPD_compute (snd (SPD_run st bs')) = SPD_compute (snd (SPD_run st bs))) \<and>
   (mset cs' = mset cs \<and> fst (EOD_run st cs) = None
      \<longrightarrow> EOD_run st cs' = EOD_run st cs
          \<and> EOD_compute (snd (EOD_run st cs')) = EOD_compute (snd (EOD_run st cs)))"
proof -
  have spd: "SPD_run st bs' = SPD_run st bs"
    if m: "mset bs' = mset bs" and ok: "fst (SPD_run st bs) = None"
  proof -
    let ?f = "\<lambda>b s. snd (SPD_update s (fst b) (snd b))"
    let ?P = "\<lambda>b. fst (SPD_update metric_init (fst b) (snd b)) = None"
    have a: "list_all ?P bs" using ok by (simp add: SPD_run_success)
    then have a': "list_all ?P bs'" using list_all_mset [OF m, of ?P] by simp
    have "fold ?f bs' = fold ?f bs"
      by (rule fold_multiset_equiv [OF _ m]) (simp add: fun_eq_iff SPD_step_commute)
    then show ?thesis by (simp add: SPD_run_fold [OF a] SPD_run_fold [OF a'])
  qed
  have eod: "EOD_run st cs' = EOD_run st cs"
    if m: "mset cs' = mset cs" and ok: "fst (EOD_run st cs) = None"
  proof -
    let ?f = "\<lambda>(p, t, m) s. snd (EOD_update s p t m)"
    let ?P = "\<lambda>(p, t, m). fst (EOD_update metric_init p t m) = None"
    have a: "list_all ?P cs" using ok by (simp add: EOD_run_success)
    then have a': "list_all ?P cs'" using list_all_mset [OF m, of ?P] by simp
    have "fold ?f cs' = fold ?f cs"
      by (rule fold_multiset_equiv [OF _ m])
        (auto simp: fun_eq_iff EOD_step_commute)
    then show ?thesis by (simp add: EOD_run_fold [OF a] EOD_run_fold [OF a'])
  qed
  from spd eod show ?thesis by simp
qed

theorem update_order_invariant_witness:
  "mset [([0, 1], [True, False]), ([1, 1, 0], [True, True, False])]
     = mset [([1, 1, 0], [True, True, False]), ([0 :: int, 1], [True, False])] \<and>
   SPD_run metric_init [([0, 1], [True, False]), ([1, 1, 0], [True, True, False])]
     = (None, \<lparr>preds_adv_pos = 2, preds_dis_pos = 1, num_adv = 3, num_dis = 2\<rparr>) \<and>
   SPD_run metric_init [([1, 1, 0], [True, True, False]), ([0, 1], [True, False])]
     = (None, \<lparr>preds_adv_pos = 2, preds_dis_pos = 1, num_adv = 3, num_dis = 2\<rparr>) \<and>
   mset [([1, 1], [1, 1], [True, False]), ([1], [1], [True])]
     = mset [([1], [1], [True]), ([1 :: int, 1], [1 :: int, 1], [True, False])] \<and>
   EOD_run metric_init [([1, 1], [1, 1], [True, False]), ([1], [1], [True])]
     = (None, \<lparr>preds_adv_pos = 2, preds_dis_pos = 1, num_adv = 2, num_dis = 1\<rparr>) \<and>
   EOD_run metric_init [([1], [1], [True]), ([1, 1], [1, 1], [True, False])]
     = (None, \<lparr>preds_adv_pos = 2, preds_dis_pos = 1, num_adv = 2, num_dis = 1\<rparr>)"
proof -
  have s: "SPD_run metric_init [([1, 1, 0], [True, True, False]), ([0, 1], [True, False])]
     = (None, \<lparr>preds_adv_pos = 2, preds_dis_pos = 1, num_adv = 3, num_dis = 2\<rparr>)"
    by (simp add: SPD_update_def mask_index_def invert_def len_eq_one_def metric_init_def)
  have e: "EOD_run metric_init [([1], [1], [True]), ([1, 1], [1, 1], [True, False])]
     = (None, \<lparr>preds_adv_pos = 2, preds_dis_pos = 1, num_adv = 2, num_dis = 1\<rparr>)"
    by (simp add: EOD_update_def mask_index_def invert_def len_eq_one_def metric_init_def
      logical_and_def to_bool_def bool_sum_def)
  have ms: "mset [([0, 1], [True, False]), ([1, 1, 0], [True, True, False])]
     = mset [([1, 1, 0], [True, True, False]), ([0 :: int, 1], [True, False])]"
    by simp
  have me: "mset [([1, 1], [1, 1], [True, False]), ([1], [1], [True])]
     = mset [([1], [1], [True]), ([1 :: int, 1], [1 :: int, 1], [True, False])]"
    by simp
  from update_order_invariant [of
      "[([0, 1], [True, False]), ([1, 1, 0], [True, True, False])]"
      "[([1, 1, 0], [True, True, False]), ([0, 1], [True, False])]"
      metric_init
      "[([1, 1], [1, 1], [True, False]), ([1], [1], [True])]"
      "[([1], [1], [True]), ([1, 1], [1, 1], [True, False])]"]
    s e ms me
  show ?thesis by simp
qed

subsection \<open>Merging accumulators\<close>

text \<open>
  Claim C7 (merge commutativity). Combining two accumulator states by adding their
  counters gives the same state in either order, hence the same \<^verbatim>\<open>compute\<close>
  result, for SPD and for EOD.
\<close>

theorem merge_commutative:
  "merge_states a b = merge_states b a \<and>
   SPD_compute (merge_states a b) = SPD_compute (merge_states b a) \<and>
   EOD_compute (merge_states a b) = EOD_compute (merge_states b a)"
proof -
  have "merge_states a b = merge_states b a"
    by (simp add: merge_states_def add.commute)
  then show ?thesis by simp
qed

text \<open>
  The sum is the right way to combine: the merge of the accumulators of two
  histories, each run on a fresh accumulator, is the accumulator of one run through
  both.
\<close>

lemma merge_init: "merge_states st metric_init = st"
  by (simp add: merge_states_def metric_init_def)

lemma SPD_update_merge:
  "snd (SPD_update (merge_states a st) p m) = merge_states a (snd (SPD_update st p m))"
  by (simp add: SPD_update_def merge_states_def split: sum.splits)

lemma EOD_update_merge:
  "snd (EOD_update (merge_states a st) p t m) = merge_states a (snd (EOD_update st p t m))"
  by (simp add: EOD_update_def merge_states_def split: sum.splits)

lemma SPD_run_merge:
  "snd (SPD_run (merge_states a st) h) = merge_states a (snd (SPD_run st h))"
proof (induction h arbitrary: st)
  case Nil
  then show ?case by simp
next
  case (Cons b h)
  obtain p m where b: "b = (p, m)" by (cases b)
  obtain e st' where u: "SPD_update st p m = (e, st')" by (cases "SPD_update st p m")
  have "SPD_update (merge_states a st) p m = (e, merge_states a st')"
    using u SPD_update_merge [of a st p m] SPD_update_fst_indep [of "merge_states a st" p m st]
    by (simp add: prod_eq_iff)
  then show ?case using Cons.IH [of st'] b u by (cases e) simp_all
qed

lemma EOD_run_merge:
  "snd (EOD_run (merge_states a st) h) = merge_states a (snd (EOD_run st h))"
proof (induction h arbitrary: st)
  case Nil
  then show ?case by simp
next
  case (Cons b h)
  obtain p t m where b: "b = (p, t, m)" by (cases b)
  obtain e st' where u: "EOD_update st p t m = (e, st')" by (cases "EOD_update st p t m")
  have "EOD_update (merge_states a st) p t m = (e, merge_states a st')"
    using u EOD_update_merge [of a st p t m]
      EOD_update_fst_indep [of "merge_states a st" p t m st]
    by (simp add: prod_eq_iff)
  then show ?case using Cons.IH [of st'] b u by (cases e) simp_all
qed

lemma merge_is_continued_run:
  "merge_states (snd (SPD_run metric_init h1)) (snd (SPD_run metric_init h2))
     = snd (SPD_run (snd (SPD_run metric_init h1)) h2) \<and>
   merge_states (snd (EOD_run metric_init g1)) (snd (EOD_run metric_init g2))
     = snd (EOD_run (snd (EOD_run metric_init g1)) g2)"
  using SPD_run_merge [of "snd (SPD_run metric_init h1)" metric_init h2]
    EOD_run_merge [of "snd (EOD_run metric_init g1)" metric_init g2]
  by (simp add: merge_init)

subsection \<open>Rejected calls\<close>

lemma select_col_not_assert: "select_col X idx \<noteq> Inl AssertionError"
  by (simp add: select_col_def Let_def)

lemma matvec_not_assert: "matvec X v \<noteq> Inl AssertionError"
  by (simp add: matvec_def)

lemma forward_1d_not_assert:
  "ndim th = 1 \<Longrightarrow> forward idx X (PyTensor th) \<noteq> Inl AssertionError"
  using select_col_not_assert [of X idx] matvec_not_assert [of X "butlast (elems th)"]
  by (auto simp: forward_def split: sum.splits fscalar.splits)

text \<open>
  Claim C9. \<^verbatim>\<open>FairnessLoss.forward\<close> fails its assertion, and returns no value, for
  every \<^verbatim>\<open>theta\<close> that is not a one-dimensional tensor: an object that is no tensor,
  or a tensor with any number of dimensions other than one (a scalar, a matrix). For
  a one-dimensional \<^verbatim>\<open>theta\<close> the assertion passes: whatever the call does next, it
  does not end in \<^verbatim>\<open>AssertionError\<close>.
\<close>

theorem forward_theta_check:
  "forward idx X PyOther = Inl AssertionError \<and>
   (ndim th \<noteq> 1 \<longrightarrow> forward idx X (PyTensor th) = Inl AssertionError) \<and>
   (ndim th = 1 \<longrightarrow> forward idx X (PyTensor th) \<noteq> Inl AssertionError)"
  using forward_1d_not_assert [of th idx X]
  by (simp add: forward_def)

theorem forward_theta_check_witness:
  "ndim (Tensor [2, 2] [1, 2, 3, 4]) \<noteq> 1 \<and>
   forward 0 \<lparr>ncols = 1, rows = [[1], [2]]\<rparr> (PyTensor (Tensor [2, 2] [1, 2, 3, 4]))
     = Inl AssertionError \<and>
   ndim (Tensor [] [5]) \<noteq> 1 \<and>
   forward 0 \<lparr>ncols = 1, rows = [[1], [2]]\<rparr> (PyTensor (Tensor [] [5]))
     = Inl AssertionError \<and>
   ndim (Tensor [2] [3, 4]) = 1 \<and>
   forward 0 \<lparr>ncols = 1, rows = [[1], [2]]\<rparr> (PyTensor (Tensor [2] [3, 4]))
     = Inr (Val (3 / 4)) \<and>
   forward 0 \<lparr>ncols = 1, rows = [[1], [2]]\<rparr> (PyTensor (Tensor [2] [3, 4]))
     \<noteq> Inl AssertionError"
  using forward_theta_check [of 0 "\<lparr>ncols = 1, rows = [[1], [2]]\<rparr>" "Tensor [2, 2] [1, 2, 3, 4]"]
    forward_theta_check [of 0 "\<lparr>ncols = 1, rows = [[1], [2]]\<rparr>" "Tensor [] [5]"]
    forward_theta_check [of 0 "\<lparr>ncols = 1, rows = [[1], [2]]\<rparr>" "Tensor [2] [3, 4]"]
  by (simp add: ndim_def forward_def select_col_def matvec_def dot_def tensor_mean_def)

lemma EOD_update_rejected:
  "fst (EOD_update st preds targets adv_mask) \<noteq> None \<Longrightarrow>
   snd (EOD_update st preds targets adv_mask) = st"
  by (auto simp: EOD_update_def split: sum.splits)

lemma EOD_update_accepts:
  "fst (EOD_update st preds targets adv_mask) = None \<longleftrightarrow>
     length adv_mask = length targets \<and> length targets = length preds \<or>
     length adv_mask = 1 \<and> length targets = length preds \<or>
     length targets = 1 \<and> length adv_mask = length preds"
  by (auto simp: EOD_update_def logical_and_def mask_index_def invert_def to_bool_def
      split: sum.splits)

lemma forward_mismatch_int:
  "ndim th = 1 \<Longrightarrow> int (ncols X) \<noteq> int (length (elems th)) - 1 \<Longrightarrow>
   forward idx X (PyTensor th) = Inl IndexError \<or>
   forward idx X (PyTensor th) = Inl RuntimeError"
  by (auto simp: forward_def select_col_def matvec_def Let_def split: sum.splits)

lemma logical_and_stretch_right:
  "length b = 1 \<Longrightarrow> logical_and a b = Inr (map (\<lambda>x. x \<and> hd b) a)"
proof -
  assume "length b = 1"
  then obtain y where b: "b = [y]" by (cases b) auto
  show ?thesis
  proof (cases "length a = 1")
    case True
    then obtain x where "a = [x]" by (cases a) auto
    then show ?thesis by (simp add: logical_and_def b)
  next
    case False
    then show ?thesis by (simp add: logical_and_def b)
  qed
qed

lemma logical_and_stretch_left:
  "length a = 1 \<Longrightarrow> logical_and a b = Inr (map (\<lambda>y. hd a \<and> y) b)"
proof -
  assume "length a = 1"
  then obtain x where a: "a = [x]" by (cases a) auto
  show ?thesis
  proof (cases "length b = 1")
    case True
    then obtain y where "b = [y]" by (cases b) auto
    then show ?thesis by (simp add: logical_and_def a)
  next
    case False
    then show ?thesis by (auto simp: logical_and_def a)
  qed
qed

lemma hd_to_bool: "length t = 1 \<Longrightarrow> hd (to_bool t) = (hd t \<noteq> 0)"
  by (cases t) (simp_all add: to_bool_def)

lemma hd_invert: "length a = 1 \<Longrightarrow> hd (invert a) = (\<not> hd a)"
  by (cases a) (simp_all add: invert_def)

lemma EOD_update_broadcast_targets:
  assumes "length targets = 1" and "length adv_mask = length preds"
  shows "EOD_update st preds targets adv_mask =
     (None,
      st\<lparr>preds_adv_pos := preds_adv_pos st + count_where (length preds)
             (\<lambda>i. hd targets \<noteq> 0 \<and> adv_mask ! i \<and> preds ! i = 1),
         preds_dis_pos := preds_dis_pos st + count_where (length preds)
             (\<lambda>i. hd targets \<noteq> 0 \<and> \<not> adv_mask ! i \<and> preds ! i = 1),
         num_adv := num_adv st + count_where (length preds)
             (\<lambda>i. hd targets \<noteq> 0 \<and> adv_mask ! i),
         num_dis := num_dis st + count_where (length preds)
             (\<lambda>i. hd targets \<noteq> 0 \<and> \<not> adv_mask ! i)\<rparr>)"
proof -
  let ?n = "length preds"
  let ?t = "hd targets \<noteq> 0"
  let ?A = "map (\<lambda>x. x \<and> ?t) adv_mask"
  let ?D = "map (\<lambda>x. x \<and> ?t) (invert adv_mask)"
  have lt: "length (to_bool targets) = 1" using assms(1) by (simp add: to_bool_def)
  have A: "logical_and adv_mask (to_bool targets) = Inr ?A"
    using logical_and_stretch_right [OF lt, of adv_mask] hd_to_bool [OF assms(1)] by simp
  have D: "logical_and (invert adv_mask) (to_bool targets) = Inr ?D"
    using logical_and_stretch_right [OF lt, of "invert adv_mask"] hd_to_bool [OF assms(1)]
    by simp
  have lA: "length ?A = ?n" and lD: "length ?D = ?n"
    using assms(2) by (simp_all add: invert_def)
  have 1: "len_eq_one (map fst (filter snd (zip preds ?A)))
           = count_where ?n (\<lambda>i. ?t \<and> adv_mask ! i \<and> preds ! i = 1)"
    unfolding selected_ones_count [OF lA]
    by (rule count_where_cong) (use assms(2) in auto)
  have 2: "len_eq_one (map fst (filter snd (zip preds ?D)))
           = count_where ?n (\<lambda>i. ?t \<and> \<not> adv_mask ! i \<and> preds ! i = 1)"
    unfolding selected_ones_count [OF lD]
    by (rule count_where_cong) (use assms(2) in \<open>auto simp: invert_def\<close>)
  have 3: "bool_sum ?A = count_where ?n (\<lambda>i. ?t \<and> adv_mask ! i)"
    unfolding bool_sum_count lA
    by (rule count_where_cong) (use assms(2) in auto)
  have 4: "bool_sum ?D = count_where ?n (\<lambda>i. ?t \<and> \<not> adv_mask ! i)"
    unfolding bool_sum_count lD
    by (rule count_where_cong) (use assms(2) in \<open>auto simp: invert_def\<close>)
  have mA: "mask_index preds ?A = Inr (map fst (filter snd (zip preds ?A)))"
    using lA by (simp add: mask_index_def)
  have mD: "mask_index preds ?D = Inr (map fst (filter snd (zip preds ?D)))"
    using lD by (simp add: mask_index_def)
  show ?thesis
    by (simp only: EOD_update_def A D mA mD sum.case 1 2 3 4)
qed

lemma EOD_update_broadcast_mask:
  assumes "length adv_mask = 1" and "length targets = length preds"
  shows "EOD_update st preds targets adv_mask =
     (None,
      st\<lparr>preds_adv_pos := preds_adv_pos st + count_where (length preds)
             (\<lambda>i. hd adv_mask \<and> targets ! i \<noteq> 0 \<and> preds ! i = 1),
         preds_dis_pos := preds_dis_pos st + count_where (length preds)
             (\<lambda>i. \<not> hd adv_mask \<and> targets ! i \<noteq> 0 \<and> preds ! i = 1),
         num_adv := num_adv st + count_where (length preds)
             (\<lambda>i. hd adv_mask \<and> targets ! i \<noteq> 0),
         num_dis := num_dis st + count_where (length preds)
             (\<lambda>i. \<not> hd adv_mask \<and> targets ! i \<noteq> 0)\<rparr>)"
proof -
  let ?n = "length preds"
  let ?A = "map (\<lambda>y. hd adv_mask \<and> y) (to_bool targets)"
  let ?D = "map (\<lambda>y. \<not> hd adv_mask \<and> y) (to_bool targets)"
  have li: "length (invert adv_mask) = 1" using assms(1) by (simp add: invert_def)
  have A: "logical_and adv_mask (to_bool targets) = Inr ?A"
    using logical_and_stretch_left [OF assms(1), of "to_bool targets"] by simp
  have D: "logical_and (invert adv_mask) (to_bool targets) = Inr ?D"
    using logical_and_stretch_left [OF li, of "to_bool targets"] hd_invert [OF assms(1)]
    by simp
  have lA: "length ?A = ?n" and lD: "length ?D = ?n"
    using assms(2) by (simp_all add: to_bool_def)
  have 1: "len_eq_one (map fst (filter snd (zip preds ?A)))
           = count_where ?n (\<lambda>i. hd adv_mask \<and> targets ! i \<noteq> 0 \<and> preds ! i = 1)"
    unfolding selected_ones_count [OF lA]
    by (rule count_where_cong) (use assms(2) in \<open>auto simp: to_bool_def\<close>)
  have 2: "len_eq_one (map fst (filter snd (zip preds ?D)))
           = count_where ?n (\<lambda>i. \<not> hd adv_mask \<and> targets ! i \<noteq> 0 \<and> preds ! i = 1)"
    unfolding selected_ones_count [OF lD]
    by (rule count_where_cong) (use assms(2) in \<open>auto simp: to_bool_def\<close>)
  have 3: "bool_sum ?A = count_where ?n (\<lambda>i. hd adv_mask \<and> targets ! i \<noteq> 0)"
    unfolding bool_sum_count lA
    by (rule count_where_cong) (use assms(2) in \<open>auto simp: to_bool_def\<close>)
  have 4: "bool_sum ?D = count_where ?n (\<lambda>i. \<not> hd adv_mask \<and> targets ! i \<noteq> 0)"
    unfolding bool_sum_count lD
    by (rule count_where_cong) (use assms(2) in \<open>auto simp: to_bool_def\<close>)
  have mA: "mask_index preds ?A = Inr (map fst (filter snd (zip preds ?A)))"
    using lA by (simp add: mask_index_def)
  have mD: "mask_index preds ?D = Inr (map fst (filter snd (zip preds ?D)))"
    using lD by (simp add: mask_index_def)
  show ?thesis
    by (simp only: EOD_update_def A D mA mD sum.case 1 2 3 4)
qed

lemma count_where_filter: "count_where n P = int (length (filter P [0..<n]))"
proof -
  have "length (filter P [0..<n]) = card {i. i < length [0..<n] \<and> P ([0..<n] ! i)}"
    by (rule length_filter_conv_card)
  also have "{i. i < length [0..<n] \<and> P ([0..<n] ! i)} = {i. i < n \<and> P i}"
    by auto
  finally show ?thesis by (simp add: count_where_def)
qed

text \<open>
  Claim C10, as amended. The code has no length check of its own; a call is rejected
  exactly when a tensor operation of torch rejects its operands.
  \<^item> \<^verbatim>\<open>SPD.update\<close> raises \<^verbatim>\<open>IndexError\<close> whenever \<^verbatim>\<open>preds\<close> and \<^verbatim>\<open>adv_mask\<close> differ in
    length, and the accumulator is unchanged.
  \<^item> \<^verbatim>\<open>EOD.update\<close> is accepted exactly when the three lengths are equal, or one of
    \<^verbatim>\<open>adv_mask\<close> and \<^verbatim>\<open>targets\<close> has length 1 and the other has the length of
    \<^verbatim>\<open>preds\<close>; every other call raises, and a call that raises leaves the
    accumulator unchanged.
  \<^item> In the accepted calls with a tensor of length 1, torch stretches that tensor
    and the counters are updated as if its single entry stood at every sample: a
    single target \<open>t\<close> counts every sample when \<open>t \<noteq> 0\<close> and none otherwise; a single
    mask bit puts every sample into one subgroup.
  \<^item> \<^verbatim>\<open>FairnessLoss.forward\<close> with a one-dimensional \<^verbatim>\<open>theta\<close> raises whenever the
    number of columns of \<^verbatim>\<open>X\<close> is not \<open>len(theta) - 1\<close> (a difference of integers:
    an empty \<^verbatim>\<open>theta\<close> is rejected for every \<^verbatim>\<open>X\<close>).
\<close>

theorem shape_mismatch_rejection:
  "(length adv_mask \<noteq> length preds \<longrightarrow>
      SPD_update st preds adv_mask = (Some IndexError, st)) \<and>
   (fst (EOD_update st preds targets adv_mask) = None \<longleftrightarrow>
      length adv_mask = length targets \<and> length targets = length preds \<or>
      length adv_mask = 1 \<and> length targets = length preds \<or>
      length targets = 1 \<and> length adv_mask = length preds) \<and>
   (fst (EOD_update st preds targets adv_mask) \<noteq> None \<longrightarrow>
      snd (EOD_update st preds targets adv_mask) = st) \<and>
   (length targets = 1 \<and> length adv_mask = length preds \<longrightarrow>
      EOD_update st preds targets adv_mask =
        (None,
         st\<lparr>preds_adv_pos := preds_adv_pos st + count_where (length preds)
                (\<lambda>i. hd targets \<noteq> 0 \<and> adv_mask ! i \<and> preds ! i = 1),
            preds_dis_pos := preds_dis_pos st + count_where (length preds)
                (\<lambda>i. hd targets \<noteq> 0 \<and> \<not> adv_mask ! i \<and> preds ! i = 1),
            num_adv := num_adv st + count_where (length preds)
                (\<lambda>i. hd targets \<noteq> 0 \<and> adv_mask ! i),
            num_dis := num_dis st + count_where (length preds)
                (\<lambda>i. hd targets \<noteq> 0 \<and> \<not> adv_mask ! i)\<rparr>)) \<and>
   (length adv_mask = 1 \<and> length targets = length preds \<longrightarrow>
      EOD_update st preds targets adv_mask =
        (None,
         st\<lparr>preds_adv_pos := preds_adv_pos st + count_where (length preds)
                (\<lambda>i. hd adv_mask \<and> targets ! i \<noteq> 0 \<and> preds ! i = 1),
            preds_dis_pos := preds_dis_pos st + count_where (length preds)
                (\<lambda>i. \<not> hd adv_mask \<and> targets ! i \<noteq> 0 \<and> preds ! i = 1),
            num_adv := num_adv st + count_where (length preds)
                (\<lambda>i. hd adv_mask \<and> targets ! i \<noteq> 0),
            num_dis := num_dis st + count_where (length preds)
                (\<lambda>i. \<not> hd adv_mask \<and> targets ! i \<noteq> 0)\<rparr>)) \<and>
   (ndim th = 1 \<and> int (ncols X) \<noteq> int (length (elems th)) - 1 \<longrightarrow>
      forward idx X (PyTensor th) = Inl IndexError \<or>
      forward idx X (PyTensor th) = Inl RuntimeError)"
  using SPD_update_mismatch [of adv_mask preds st]
    EOD_update_accepts [of st preds targets adv_mask]
    EOD_update_rejected [of st preds targets adv_mask]
    EOD_update_broadcast_targets [of targets adv_mask preds st]
    EOD_update_broadcast_mask [of adv_mask targets preds st]
    forward_mismatch_int [of th X idx]
  by blast

theorem shape_mismatch_rejection_witness:
  "SPD_update metric_init [1, 0, 1] [True, False] = (Some IndexError, metric_init) \<and>
   EOD_update metric_init [1, 0, 1] [1, 1] [True, False, True]
     = (Some RuntimeError, metric_init) \<and>
   EOD_update metric_init [1, 0, 1] [1, 1] [True, False]
     = (Some IndexError, metric_init) \<and>
   EOD_update metric_init [1, 1] [1] [True, False]
     = (None, \<lparr>preds_adv_pos = 1, preds_dis_pos = 1, num_adv = 1, num_dis = 1\<rparr>) \<and>
   EOD_update metric_init [1, 0, 1] [1, 1, 0] [True]
     = (None, \<lparr>preds_adv_pos = 1, preds_dis_pos = 0, num_adv = 2, num_dis = 0\<rparr>) \<and>
   forward 0 \<lparr>ncols = 2, rows = [[1, 2]]\<rparr> (PyTensor (Tensor [2] [1, 2]))
     = Inl RuntimeError \<and>
   forward 0 \<lparr>ncols = 0, rows = [[]]\<rparr> (PyTensor (Tensor [0] []))
     = Inl IndexError"
  using shape_mismatch_rejection [of "[True, False]" "[1, 0, 1]" metric_init "[1, 1]"
      "Tensor [2] [1, 2]" "\<lparr>ncols = 2, rows = [[1, 2]]\<rparr>" 0]
    shape_mismatch_rejection [of "[True, False, True]" "[1, 0, 1]" metric_init "[1, 1]"
      "Tensor [0] []" "\<lparr>ncols = 0, rows = [[]]\<rparr>" 0]
    shape_mismatch_rejection [of "[True, False]" "[1, 1]" metric_init "[1]"
      "Tensor [2] [1, 2]" "\<lparr>ncols = 2, rows = [[1, 2]]\<rparr>" 0]
    shape_mismatch_rejection [of "[True]" "[1, 0, 1]" metric_init "[1, 1, 0]"
      "Tensor [2] [1, 2]" "\<lparr>ncols = 2, rows = [[1, 2]]\<rparr>" 0]
  by (simp add: SPD_update_def EOD_update_def mask_index_def invert_def logical_and_def
      to_bool_def ndim_def forward_def select_col_def matvec_def len_eq_one_def
      bool_sum_def metric_init_def count_where_filter upt_rec)

text \<open>
  The claim as stated fails for EOD: with two predictions, a mask of length two and
  a single target the call is not rejected; the target is broadcast and all four
  counters are incremented.
\<close>

theorem EOD_broadcast_counterexample:
  "length [1 :: int] \<noteq> length [1 :: int, 1] \<and>
   EOD_update metric_init [1, 1] [1] [True, False]
     = (None, \<lparr>preds_adv_pos = 1, preds_dis_pos = 1, num_adv = 1, num_dis = 1\<rparr>)"
  by (simp add: EOD_update_def mask_index_def invert_def logical_and_def to_bool_def
      len_eq_one_def bool_sum_def metric_init_def)

subsection \<open>The value of \<^verbatim>\<open>FairnessLoss.forward\<close>\<close>

lemma select_col_in_range:
  "- int (ncols X) \<le> idx \<Longrightarrow> idx < int (ncols X) \<Longrightarrow>
   select_col X idx = Inr (map (\<lambda>r. r ! col_of (ncols X) idx) (rows X))"
  by (auto simp: select_col_def col_of_def Let_def)

lemma col_of_less:
  "- int d \<le> idx \<Longrightarrow> idx < int d \<Longrightarrow> col_of d idx < d"
  by (auto simp: col_of_def)

lemma sum_list_map_nth: "sum_list (map f xs) = (\<Sum>i<length xs. f (xs ! i))"
proof -
  have "sum_list (map f xs) = (\<Sum>i = 0..<length xs. map f xs ! i)"
    using sum_list_sum_nth [of "map f xs"] by simp
  also have "\<dots> = (\<Sum>i = 0..<length xs. f (xs ! i))"
    by (rule sum.cong) simp_all
  finally show ?thesis by (simp add: atLeast0LessThan)
qed

lemma dot_butlast:
  assumes "length r = length theta - 1"
  shows "dot r (butlast theta) = (\<Sum>k<length theta - 1. r ! k * theta ! k)"
proof -
  have "dot r (butlast theta)
        = (\<Sum>i<length (zip r (butlast theta)).
             (\<lambda>(x, y). x * y) (zip r (butlast theta) ! i))"
    unfolding dot_def by (rule sum_list_map_nth)
  also have "\<dots> = (\<Sum>k<length theta - 1. r ! k * theta ! k)"
    using assms by (intro sum.cong) (simp_all add: nth_butlast)
  finally show ?thesis .
qed

lemma map_mult_zip:
  "map (\<lambda>(c, s). c * s) (zip (map f xs) (map g xs)) = map (\<lambda>x. f x * g x) xs"
  by (induction xs) simp_all

text \<open>The value of \<^verbatim>\<open>forward\<close> in list form, when every operation is defined.\<close>

lemma forward_value:
  assumes "ndim th = 1"
    and "- int (ncols X) \<le> idx" and "idx < int (ncols X)"
    and "length (elems th) = ncols X + 1"
    and "rows X \<noteq> []"
  shows "forward idx X (PyTensor th) =
           Inr (Val (sum_list (map (\<lambda>r.
                  (r ! col_of (ncols X) idx
                     - sum_list (map (\<lambda>r. r ! col_of (ncols X) idx) (rows X))
                         / real (length (rows X)))
                  * dot r (butlast (elems th))) (rows X))
                / real (length (rows X))))"
proof -
  let ?j = "col_of (ncols X) idx"
  let ?z = "map (\<lambda>r. r ! ?j) (rows X)"
  let ?zbar = "sum_list ?z / real (length (rows X))"
  have s: "select_col X idx = Inr ?z"
    using assms(2,3) by (rule select_col_in_range)
  have m: "matvec X (butlast (elems th)) = Inr (map (\<lambda>r. dot r (butlast (elems th))) (rows X))"
    using assms(4) by (simp add: matvec_def)
  have t: "tensor_mean ?z = Val ?zbar"
    using assms(5) by (simp add: tensor_mean_def)
  show ?thesis
    using assms(1,5)
    by (simp add: forward_def s m t map_mult_zip tensor_mean_def)
qed

lemma forward_empty:
  assumes "ndim th = 1"
    and "- int (ncols X) \<le> idx" and "idx < int (ncols X)"
    and "length (elems th) = ncols X + 1"
    and "rows X = []"
  shows "forward idx X (PyTensor th) = Inr NaN"
  using assms
  by (simp add: forward_def select_col_in_range matvec_def tensor_mean_def)

text \<open>
  Claim C3. For a feature matrix \<open>X\<close> and a one-dimensional \<^verbatim>\<open>theta\<close> on which the
  expression is defined (the sensitive index denotes a column of \<open>X\<close>, and \<open>X\<close> has
  as many columns as \<^verbatim>\<open>theta[:-1]\<close> has entries), \<^verbatim>\<open>forward\<close> returns
  \<open>mean((z - mean(z)) * (X @ theta[:-1]))\<close> with \<open>z\<close> the sensitive column: the
  covariance \<open>1/N \<Sum>\<^sub>i (z\<^sub>i - z_bar) * (\<Sum>\<^sub>k x\<^sub>i\<^sub>k \<theta>\<^sub>k)\<close>, not normalised, the last
  entry of \<^verbatim>\<open>theta\<close> taking no part. For a matrix without rows the result is
  not-a-number.
\<close>

theorem forward_is_covariance:
  assumes "wf_matrix X" and "ndim th = 1"
    and "- int (ncols X) \<le> idx" and "idx < int (ncols X)"
    and "length (elems th) = ncols X + 1"
  shows "forward idx X (PyTensor th) =
           (if rows X = [] then Inr NaN
            else Inr (Val (spec_covariance (col_of (ncols X) idx) X (elems th))))"
proof (cases "rows X = []")
  case True
  then show ?thesis using forward_empty [OF assms(2-5)] by simp
next
  case False
  let ?j = "col_of (ncols X) idx"
  let ?N = "length (rows X)"
  have len: "length (rows X ! i) = length (elems th) - 1" if "i < ?N" for i
    using assms(1,5) that by (simp add: wf_matrix_def list_all_length)
  have d: "dot (rows X ! i) (butlast (elems th))
           = (\<Sum>k<length (elems th) - 1. rows X ! i ! k * elems th ! k)" if "i < ?N" for i
    using dot_butlast [OF len [OF that]] .
  have "spec_covariance ?j X (elems th)
        = sum_list (map (\<lambda>r.
                  (r ! ?j - sum_list (map (\<lambda>r. r ! ?j) (rows X)) / real ?N)
                  * dot r (butlast (elems th))) (rows X)) / real ?N"
    unfolding spec_covariance_def Let_def sum_list_map_nth
    by (simp add: d)
  then show ?thesis using False forward_value [OF assms(2-5) False] by simp
qed

theorem forward_is_covariance_witness:
  "wf_matrix \<lparr>ncols = 2, rows = [[1, 2], [3, 5]]\<rparr> \<and>
   ndim (Tensor [3] [2, 1, 7]) = 1 \<and>
   forward 0 \<lparr>ncols = 2, rows = [[1, 2], [3, 5]]\<rparr> (PyTensor (Tensor [3] [2, 1, 7]))
     = Inr (Val (7 / 2)) \<and>
   spec_covariance 0 \<lparr>ncols = 2, rows = [[1, 2], [3, 5]]\<rparr> [2, 1, 7] = 7 / 2 \<and>
   forward (- 1) \<lparr>ncols = 2, rows = [[1, 2], [3, 5]]\<rparr> (PyTensor (Tensor [3] [2, 1, 7]))
     = Inr (Val (21 / 4)) \<and>
   spec_covariance 1 \<lparr>ncols = 2, rows = [[1, 2], [3, 5]]\<rparr> [2, 1, 7] = 21 / 4 \<and>
   forward 0 \<lparr>ncols = 2, rows = []\<rparr> (PyTensor (Tensor [3] [2, 1, 7])) = Inr NaN"
proof -
  have c0: "spec_covariance 0 \<lparr>ncols = 2, rows = [[1, 2], [3, 5]]\<rparr> [2, 1, 7] = 7 / 2"
    by (simp add: spec_covariance_def Let_def)
  have c1: "spec_covariance 1 \<lparr>ncols = 2, rows = [[1, 2], [3, 5]]\<rparr> [2, 1, 7] = 21 / 4"
    by (simp add: spec_covariance_def Let_def)
  from c0 c1
    forward_is_covariance [of "\<lparr>ncols = 2, rows = [[1, 2], [3, 5]]\<rparr>" "Tensor [3] [2, 1, 7]" 0]
    forward_is_covariance [of "\<lparr>ncols = 2, rows = [[1, 2], [3, 5]]\<rparr>" "Tensor [3] [2, 1, 7]" "- 1"]
    forward_is_covariance [of "\<lparr>ncols = 2, rows = []\<rparr>" "Tensor [3] [2, 1, 7]" 0]
  show ?thesis
    by (simp add: wf_matrix_def ndim_def col_of_def)
qed

text \<open>
  A constant sensitive column. In exact arithmetic the mean of a constant column is
  the constant, every centred entry is 0 and so is the loss, whatever \<^verbatim>\<open>theta\<close> is.
\<close>

lemma sum_list_constant: "sum_list (map (\<lambda>r. c) xs) = real (length xs) * c"
  by (induction xs) (simp_all add: algebra_simps)

lemma forward_constant_column_exact:
  assumes "ndim th = 1"
    and "- int (ncols X) \<le> idx" and "idx < int (ncols X)"
    and "length (elems th) = ncols X + 1"
    and "rows X \<noteq> []"
    and "list_all (\<lambda>r. r ! col_of (ncols X) idx = c) (rows X)"
  shows "forward idx X (PyTensor th) = Inr (Val 0)"
proof -
  let ?j = "col_of (ncols X) idx"
  let ?N = "length (rows X)"
  have N: "real ?N \<noteq> 0" using assms(5) by simp
  have zc: "map (\<lambda>r. r ! ?j) (rows X) = map (\<lambda>r. c) (rows X)"
    using assms(6) by (simp add: list_all_iff)
  have zbar: "sum_list (map (\<lambda>r. r ! ?j) (rows X)) / real ?N = c"
    unfolding zc sum_list_constant using N by simp
  have "map (\<lambda>r. (r ! ?j - c) * dot r (butlast (elems th))) (rows X)
        = map (\<lambda>r. 0) (rows X)"
    using assms(6) by (simp add: list_all_iff)
  then have "sum_list (map (\<lambda>r. (r ! ?j - c) * dot r (butlast (elems th))) (rows X)) = 0"
    by (simp only: sum_list_constant mult_zero_right)
  then show ?thesis
    unfolding forward_value [OF assms(1-5)] zbar by simp
qed

text \<open>The rounded evaluation: without rounding it is the exact one.\<close>

lemma foldl_add: "foldl (\<lambda>acc x. acc + x) a t = a + sum_list t" for a :: real
  by (induction t arbitrary: a) simp_all

lemma fl_sum_exact: "fl_sum (\<lambda>x. x) t = sum_list t"
  by (simp add: fl_sum_def foldl_add)

lemma forward_rounded_exact: "forward_rounded (\<lambda>x. x) idx X theta = forward idx X theta"
proof -
  have m: "fl_mean (\<lambda>x. x) = tensor_mean"
    by (simp add: fun_eq_iff fl_mean_def tensor_mean_def fl_sum_exact)
  have d: "fl_dot (\<lambda>x. x) = dot"
    by (simp add: fun_eq_iff fl_dot_def dot_def fl_sum_exact)
  have v: "fl_matvec (\<lambda>x. x) = matvec"
    by (simp add: fun_eq_iff fl_matvec_def matvec_def d)
  show ?thesis
    unfolding forward_rounded_def forward_def m v ..
qed

text \<open>
  \<open>binary64\<close> is a rounding to nearest: \<open>exponent\<close> brackets its argument between two
  powers of 2, and the rounded value is a multiple of \<open>2\<^sup>e\<^sup>-\<^sup>5\<^sup>2\<close> no further than half
  that unit from the argument.
\<close>

lemma round_even_nearest: "\<bar>of_int (round_even q) - q\<bar> \<le> 1 / 2"
proof -
  have "of_int \<lfloor>q\<rfloor> \<le> q" "q < of_int \<lfloor>q\<rfloor> + 1" by linarith+
  then show ?thesis by (auto simp: round_even_def Let_def)
qed

lemma exponent_bounds:
  assumes "x \<noteq> 0"
  shows "2 powi exponent x \<le> \<bar>x\<bar> \<and> \<bar>x\<bar> < 2 powi (exponent x + 1)"
proof (cases "1 \<le> \<bar>x\<bar>")
  case True
  let ?n = "\<lfloor>\<bar>x\<bar>\<rfloor>"
  have n: "0 < ?n" using True by simp
  have e: "exponent x = bitlen ?n - 1" using True by (simp add: exponent_def)
  have b1: "1 \<le> bitlen ?n" using n by (simp add: bitlen_alt_def)
  from bitlen_bounds [OF n]
  have lo: "2 ^ nat (bitlen ?n - 1) \<le> ?n" and hi: "?n < 2 ^ nat (bitlen ?n)" by simp_all
  have "(2::real) powi exponent x = 2 ^ nat (bitlen ?n - 1)"
    using b1 by (simp add: e power_int_def)
  also have "\<dots> = of_int (2 ^ nat (bitlen ?n - 1))" by simp
  also have "\<dots> \<le> of_int ?n" using lo by (simp only: of_int_le_iff)
  also have "\<dots> \<le> \<bar>x\<bar>" by simp
  finally have 1: "2 powi exponent x \<le> \<bar>x\<bar>" .
  have "?n + 1 \<le> 2 ^ nat (bitlen ?n)" using hi by simp
  then have "of_int (?n + 1) \<le> (of_int (2 ^ nat (bitlen ?n)) :: real)"
    by (simp only: of_int_le_iff)
  then have le: "of_int ?n + 1 \<le> (2::real) ^ nat (bitlen ?n)" by simp
  have "\<bar>x\<bar> < of_int ?n + 1" by linarith
  with le have "\<bar>x\<bar> < 2 ^ nat (bitlen ?n)" by linarith
  also have "\<dots> = 2 powi (exponent x + 1)"
    using b1 by (simp add: e power_int_def)
  finally show ?thesis using 1 by simp
next
  case False
  let ?y = "1 / \<bar>x\<bar>"
  let ?n = "\<lceil>?y\<rceil> - 1"
  have x: "0 < \<bar>x\<bar>" "\<bar>x\<bar> < 1" using assms False by simp_all
  then have y: "1 < ?y" by simp
  then have "1 < \<lceil>?y\<rceil>" by (simp add: less_ceiling_iff)
  then have n: "0 < ?n" by simp
  have e: "exponent x = - bitlen ?n" using False by (simp add: exponent_def)
  have b1: "1 \<le> bitlen ?n" using n by (simp add: bitlen_alt_def)
  from bitlen_bounds [OF n]
  have lo: "2 ^ nat (bitlen ?n - 1) \<le> ?n" and hi: "?n < 2 ^ nat (bitlen ?n)" by simp_all
  have ny: "of_int ?n < ?y" "?y \<le> of_int ?n + 1"
    using ceiling_correct [of ?y] by simp_all
  have "?y \<le> of_int (?n + 1)" using ny by simp
  also have "of_int (?n + 1) \<le> (of_int (2 ^ nat (bitlen ?n)) :: real)"
    using hi by (simp only: of_int_le_iff)
  finally have "?y \<le> 2 ^ nat (bitlen ?n)" by simp
  then have "1 \<le> 2 ^ nat (bitlen ?n) * \<bar>x\<bar>"
    using x by (simp add: field_simps)
  then have "1 / 2 ^ nat (bitlen ?n) \<le> \<bar>x\<bar>"
    by (simp add: field_simps)
  moreover have "(2::real) powi exponent x = 1 / 2 ^ nat (bitlen ?n)"
    using b1 by (simp add: e power_int_def field_simps)
  ultimately have 1: "2 powi exponent x \<le> \<bar>x\<bar>" by simp
  have "(of_int (2 ^ nat (bitlen ?n - 1)) :: real) \<le> of_int ?n"
    using lo by (simp only: of_int_le_iff)
  then have "2 ^ nat (bitlen ?n - 1) < ?y" using ny by simp
  then have "2 ^ nat (bitlen ?n - 1) * \<bar>x\<bar> < 1"
    using x by (simp add: field_simps)
  then have "\<bar>x\<bar> < 1 / 2 ^ nat (bitlen ?n - 1)"
    by (simp add: field_simps)
  moreover have "(2::real) powi (exponent x + 1) = 1 / 2 ^ nat (bitlen ?n - 1)"
  proof -
    have "exponent x + 1 = - int (nat (bitlen ?n - 1))" using b1 e by simp
    then show ?thesis
      by (simp only: power_int_minus power_int_of_nat inverse_eq_divide)
  qed
  ultimately show ?thesis using 1 by simp
qed

lemma binary64_error: "\<bar>binary64 x - x\<bar> \<le> 2 powi (exponent x - 53)"
proof (cases "x = 0")
  case True
  then show ?thesis by (simp add: binary64_def)
next
  case False
  let ?u = "(2::real) powi (exponent x - 52)"
  have u: "0 < ?u" by simp
  have "binary64 x - x = (of_int (round_even (x / ?u)) - x / ?u) * ?u"
    using False u by (simp add: binary64_def Let_def algebra_simps)
  then have "\<bar>binary64 x - x\<bar> = \<bar>of_int (round_even (x / ?u)) - x / ?u\<bar> * ?u"
    using u by (simp add: abs_mult)
  also have "\<dots> \<le> 1 / 2 * ?u"
    using round_even_nearest [of "x / ?u"] u by (intro mult_right_mono) simp_all
  also have "1 / 2 * ?u = 2 powi (exponent x - 53)"
  proof -
    have "(2::real) powi ((exponent x - 53) + 1) = 2 powi (exponent x - 53) * 2"
      by (rule power_int_add_1) simp
    moreover have "(exponent x - 53) + 1 = exponent x - 52" by simp
    ultimately have "?u = 2 powi (exponent x - 53) * 2" by simp
    then show ?thesis by simp
  qed
  finally show ?thesis .
qed

lemma bitlen_numeral:
  "bitlen (numeral k) = bitlen (numeral k div 2) + 1"
  by (subst compute_bitlen) simp

lemma bitlen_one: "bitlen 1 = 1"
  by (subst compute_bitlen) simp

text \<open>
  If rounding maps 0 to 0 and the computed mean of the constant column is the
  constant itself, the rounded loss is 0 as well.
\<close>

lemma map_zip_same:
  "map (\<lambda>(c, s). h c s) (zip (map f xs) (map g xs)) = map (\<lambda>x. h (f x) (g x)) xs"
  by (induction xs) simp_all

lemma fl_sum_zeros: "rnd 0 = 0 \<Longrightarrow> fl_sum rnd (map (\<lambda>r. 0) xs) = 0"
proof -
  assume r: "rnd 0 = 0"
  have "foldl (\<lambda>acc x. rnd (acc + x)) 0 (map (\<lambda>r. 0) xs) = 0"
    by (induction xs) (simp_all add: r)
  then show ?thesis by (simp add: fl_sum_def)
qed

lemma forward_rounded_constant:
  assumes "ndim th = 1"
    and "- int (ncols X) \<le> idx" and "idx < int (ncols X)"
    and "length (elems th) = ncols X + 1"
    and "rows X \<noteq> []"
    and "list_all (\<lambda>r. r ! col_of (ncols X) idx = c) (rows X)"
    and "rnd 0 = 0"
    and "fl_mean rnd (map (\<lambda>r. r ! col_of (ncols X) idx) (rows X)) = Val c"
  shows "forward_rounded rnd idx X (PyTensor th) = Inr (Val 0)"
proof -
  let ?j = "col_of (ncols X) idx"
  let ?sc = "\<lambda>r. fl_dot rnd r (butlast (elems th))"
  have s: "select_col X idx = Inr (map (\<lambda>r. r ! ?j) (rows X))"
    using assms(2,3) by (rule select_col_in_range)
  have m: "fl_matvec rnd X (butlast (elems th)) = Inr (map ?sc (rows X))"
    using assms(4) by (simp add: fl_matvec_def)
  have p: "map (\<lambda>(c, s). rnd (c * s))
             (zip (map (\<lambda>zi. rnd (zi - c)) (map (\<lambda>r. r ! ?j) (rows X))) (map ?sc (rows X)))
           = map (\<lambda>r. rnd (rnd (r ! ?j - c) * ?sc r)) (rows X)"
    by (simp only: map_map map_zip_same o_def)
  have "map (\<lambda>r. rnd (rnd (r ! ?j - c) * ?sc r)) (rows X) = map (\<lambda>r. 0) (rows X)"
    using assms(6,7) by (simp add: list_all_iff)
  with p have z: "map (\<lambda>(c, s). rnd (c * s))
             (zip (map (\<lambda>zi. rnd (zi - c)) (map (\<lambda>r. r ! ?j) (rows X))) (map ?sc (rows X)))
           = map (\<lambda>r. 0) (rows X)"
    by simp
  have f: "fl_mean rnd (map (\<lambda>r. 0) (rows X)) = Val 0"
    using assms(5,7) by (simp add: fl_mean_def fl_sum_zeros)
  have nd: "(ndim th \<noteq> 1) = False" using assms(1) by simp
  show ?thesis
    by (simp only: forward_rounded_def pyobj.case nd if_False s m assms(8) sum.case
        fscalar.case z f)
qed

text \<open>
  Claim C4, as amended. For a non-empty feature matrix whose sensitive column is
  constant, every entry \<open>c\<close>, and a one-dimensional \<^verbatim>\<open>theta\<close> on which the expression
  is defined, \<^verbatim>\<open>forward\<close> evaluates to exactly 0 in exact arithmetic, and in
  floating-point arithmetic (overflow aside, which is not modelled) whenever the
  computed \<^verbatim>\<open>z.mean()\<close> is \<open>c\<close> itself. When rounding moves the computed mean away
  from \<open>c\<close> the result need not be 0.
\<close>

theorem forward_constant_column:
  assumes "ndim th = 1"
    and "- int (ncols X) \<le> idx" and "idx < int (ncols X)"
    and "length (elems th) = ncols X + 1"
    and "rows X \<noteq> []"
    and "list_all (\<lambda>r. r ! col_of (ncols X) idx = c) (rows X)"
  shows "forward idx X (PyTensor th) = Inr (Val 0) \<and>
         (rnd 0 = 0 \<and>
          fl_mean rnd (map (\<lambda>r. r ! col_of (ncols X) idx) (rows X)) = Val c \<longrightarrow>
            forward_rounded rnd idx X (PyTensor th) = Inr (Val 0))"
  using forward_constant_column_exact [OF assms]
    forward_rounded_constant [OF assms, of rnd]
  by blast

theorem forward_constant_column_witness:
  "ndim (Tensor [3] [2, 3, 4]) = 1 \<and>
   list_all (\<lambda>r. r ! col_of 2 0 = 1) [[1, 7], [1, 9], [1 :: real, - 4]] \<and>
   forward 0 \<lparr>ncols = 2, rows = [[1, 7], [1, 9], [1, - 4]]\<rparr>
     (PyTensor (Tensor [3] [2, 3, 4])) = Inr (Val 0) \<and>
   binary64 0 = 0 \<and>
   fl_mean binary64 [1, 1, 1] = Val 1 \<and>
   forward_rounded binary64 0 \<lparr>ncols = 2, rows = [[1, 7], [1, 9], [1, - 4]]\<rparr>
     (PyTensor (Tensor [3] [2, 3, 4])) = Inr (Val 0)"
proof -
  have m: "fl_mean binary64 [1, 1, 1] = Val 1"
    by (simp add: fl_mean_def fl_sum_def binary64_def exponent_def bitlen_numeral bitlen_one
      round_even_def Let_def power_int_minus)
  have z: "binary64 0 = 0" by (simp add: binary64_def)
  from m z
    forward_constant_column [of "Tensor [3] [2, 3, 4]"
      "\<lparr>ncols = 2, rows = [[1, 7], [1, 9], [1, - 4]]\<rparr>" 0 1 binary64]
  show ?thesis by (simp add: ndim_def col_of_def)
qed

text \<open>
  The claim as stated fails in \<^verbatim>\<open>float64\<close>: three entries 0.7 sum to
  2.0999999999999996, their mean is 0.6999999999999998, one unit in the last place
  below 0.7, and with scores 1 the loss is \<open>2\<^sup>-\<^sup>5\<^sup>3\<close>, not 0.
\<close>

theorem forward_constant_column_counterexample:
  "binary64 (7 / 10) = 6305039478318694 / 9007199254740992 \<and>
   forward_rounded binary64 0
     \<lparr>ncols = 2, rows = [[binary64 (7 / 10), 1], [binary64 (7 / 10), 1], [binary64 (7 / 10), 1]]\<rparr>
     (PyTensor (Tensor [3] [0, 1, 0])) = Inr (Val (1 / 9007199254740992)) \<and>
   forward_rounded binary64 0
     \<lparr>ncols = 2, rows = [[binary64 (7 / 10), 1], [binary64 (7 / 10), 1], [binary64 (7 / 10), 1]]\<rparr>
     (PyTensor (Tensor [3] [0, 1, 0])) \<noteq> Inr (Val 0)"
  by (simp add: forward_rounded_def ndim_def select_col_def fl_matvec_def fl_dot_def
      fl_mean_def fl_sum_def binary64_def exponent_def bitlen_numeral bitlen_one
      round_even_def Let_def power_int_minus)

end
